theory Spec2Isabelle
  imports Complex_Main "HOL-Library.Word"
begin

unbundle bit_operations_syntax

section \<open>Values of the toolkit and of the application\<close>

text \<open>
  A \<open>QString\<close> is a sequence of UTF-16 code units (\<open>QChar\<close>); \<open>size()\<close> counts code
  units. A comparison of a \<open>QChar\<close> with a character literal compares the code unit with
  the literal's Latin-1 code.
\<close>

type_synonym QChar = "16 word"
type_synonym QString = "QChar list"
type_synonym TimeMs = int
type_synonym float64 = real
type_synonym WallPaperId = "64 word"

definition latin1 :: "char \<Rightarrow> QChar" where
  "latin1 c = of_char c"

definition fromLatin1 :: "string \<Rightarrow> QString" where
  "fromLatin1 s = map latin1 s"

text \<open>
  An \<open>int\<close> of the source has 32 bits. The model computes in the integers and writes the
  32 bits out: \<open>int32\<close> is the value an \<open>int\<close> holds after an operation whose exact result
  is \<open>x\<close> (two's complement; where the exact result does not fit, the source's behaviour
  is undefined, and the model wraps as the hardware does). C++ integer division
  truncates towards zero.
\<close>

definition int32 :: "int \<Rightarrow> int" where
  "int32 x = (x + 2 ^ 31) mod 2 ^ 32 - 2 ^ 31"

definition cpp_div :: "int \<Rightarrow> int \<Rightarrow> int" where
  "cpp_div a b = sgn a * sgn b * (\<bar>a\<bar> div \<bar>b\<bar>)"

text \<open>
  A \<open>float64\<close> is an IEEE 754 binary64 number, modelled by its value. An operation on
  such numbers gives the exact result rounded to the nearest binary64 number, ties to
  the even significand: \<open>float_round p E\<close> rounds to \<open>p\<close> significant bits, the smallest
  positive number being \<open>1 / 2 ^ E\<close>; binary64 has 53 bits and \<open>E = 1074\<close>. (Results beyond
  the largest binary64 number do not occur in this file.)
\<close>

fun bit_length :: "nat \<Rightarrow> nat" where
  "bit_length n = (if n = 0 then 0 else Suc (bit_length (n div 2)))"

declare bit_length.simps [simp del]

definition float_round :: "nat \<Rightarrow> nat \<Rightarrow> real \<Rightarrow> real" where
  "float_round p E x =
     (let a = \<bar>x\<bar> * 2 ^ E;
          s = bit_length (nat \<lfloor>a\<rfloor>) - p;
          y = a / 2 ^ s;
          q = \<lfloor>y\<rfloor>;
          q' = (if y - of_int q > 1 / 2 \<or> (y - of_int q = 1 / 2 \<and> odd q) then q + 1 else q)
      in sgn x * (of_int q' * 2 ^ s / 2 ^ E))"

definition float64_round :: "real \<Rightarrow> float64" where
  "float64_round x = float_round 53 1074 x"

text \<open>
  \<open>std::round\<close>: to the nearest integer, halfway cases away from zero; the result is
  exact. The conversion of the result to \<open>int\<close> is undefined outside the range of an
  \<open>int\<close>; the model keeps the integer, which then fails every check against a count.
\<close>

definition std_round :: "float64 \<Rightarrow> int" where
  "std_round x = (if 0 \<le> x then \<lfloor>x + 1 / 2\<rfloor> else \<lceil>x - 1 / 2\<rceil>)"

datatype LangKey =
    lng_background_header
  | lng_background_apply
  | lng_cancel
  | lng_background_share
  | lng_background_blur
  | lng_background_link_copied
  | lng_background_bad_link
  | lng_background_text1
  | lng_background_text2

record QColor =
  red :: int
  green :: int
  blue :: int
  alpha :: int

datatype Format =
    Format_Invalid
  | Format_RGB32
  | Format_ARGB32
  | Format_ARGB32_Premultiplied
  | Format_Indexed8

text \<open>
  A \<open>QImage\<close> with its pixel buffer. The buffer is kept as the \<open>uint32\<close> view that
  \<open>ColorizePattern\<close> takes of \<open>image.bits()\<close>; a byte of the buffer is read from the
  word that holds it, least significant byte first (the little-endian hosts the
  application is built for).
\<close>

record QImage =
  format :: Format
  width :: nat
  height :: nat
  depth :: nat
  bytesPerLine :: nat
  bits :: "32 word list"

definition QImage_null :: QImage where
  "QImage_null =
     \<lparr>format = Format_Invalid, width = 0, height = 0, depth = 0, bytesPerLine = 0,
      bits = []\<rparr>"

definition isNull :: "QImage \<Rightarrow> bool" where
  "isNull img \<longleftrightarrow> width img = 0 \<or> height img = 0"

datatype QPixmap = pixmapFromImageInPlace QImage

fun pixmap_image :: "QPixmap \<Rightarrow> QImage" where
  "pixmap_image (pixmapFromImageInPlace img) = img"

definition pixmap_isNull :: "QPixmap \<Rightarrow> bool" where
  "pixmap_isNull p = isNull (pixmap_image p)"

definition QPixmap_null :: QPixmap where
  "QPixmap_null = pixmapFromImageInPlace QImage_null"

text \<open>
  Documents and thumbnail images are objects of the data session, shared by pointer; a
  wallpaper holds the pointers, and their state (loading, progress, loaded) is read from
  the session at the moment of each call.
\<close>

type_synonym DocumentPtr = nat
type_synonym ImagePtr = nat

text \<open>
  Modelled from the spec: \<open>Data::WallPaper\<close> is declared outside this file. A wallpaper
  is what its accessors return (the id; the asset to download, a document; the
  thumbnail; the blur flag; the link to share); \<open>withBlurred\<close>, \<open>withUrlParams\<close>,
  \<open>FromColorSlug\<close> and \<open>Data::IsCloudWallPaper\<close> are parameters (see \<open>Externals\<close>).
\<close>

record WallPaper =
  paper_id :: WallPaperId
  document :: "DocumentPtr option"
  thumbnail :: "ImagePtr option"
  isPattern :: bool
  isBlurred :: bool
  backgroundColor :: "QColor option"
  patternIntensity :: int
  hasShareUrl :: bool
  shareUrl :: QString

text \<open>
  Modelled from the spec: the style of the check, the radial and the fade-in animation
  and the checkbox are classes of the toolkit, declared outside this file. The model
  keeps the fields and the state that this file reads; what the animations do when
  started, updated and stepped is a parameter (see \<open>Externals\<close>).
\<close>

record ServiceCheck_style =
  diameter :: int
  duration :: int
  shift :: int
  thickness :: int
  stroke :: int

record RadialAnimation =
  radial_animating :: bool
  radial_opacity :: float64
  radial_arc :: float64
  radial_finished :: bool

record Animation =
  animating :: bool
  anim_from :: float64
  anim_to :: float64
  anim_duration :: int

record Checkbox =
  checked :: bool
  disabled :: bool

text \<open>
  What the file calls and does not define: toolkit and application functions, style
  constants and configuration. Every function of the model takes them as \<open>ext\<close>.
\<close>

record Externals =
  convertToFormat :: "QImage \<Rightarrow> Format \<Rightarrow> QImage"
  Images_prepare :: "QImage \<Rightarrow> int \<Rightarrow> int \<Rightarrow> bool \<Rightarrow> int \<Rightarrow> int \<Rightarrow> QImage"
  PrepareBlurredBackground :: "QImage \<Rightarrow> QImage"
  PatternColor :: "QColor \<Rightarrow> QColor"
  CountAverageColor :: "QImage \<Rightarrow> QColor"
  AdjustedColor :: "QColor \<Rightarrow> QColor \<Rightarrow> QColor"
  anim_shifted :: "QColor \<Rightarrow> 64 word"
  anim_multiply :: "64 word \<Rightarrow> 64 word \<Rightarrow> 64 word"
  anim_unshifted :: "64 word \<Rightarrow> 32 word"
  st_boxWideWidth :: int
  st_msgServiceBg :: QColor
  st_backgroundCheck :: ServiceCheck_style
  cIntRetinaFactor :: int
  AnimationTimerDelta :: int
  withBlurred :: "WallPaper \<Rightarrow> bool \<Rightarrow> WallPaper"
  withUrlParams :: "WallPaper \<Rightarrow> (QString \<times> QString) list \<Rightarrow> WallPaper"
  FromColorSlug :: "QString \<Rightarrow> WallPaper option"
  IsCloudWallPaper :: "WallPaper \<Rightarrow> bool"
  radial_start :: "float64 \<Rightarrow> RadialAnimation \<Rightarrow> RadialAnimation"
  radial_update :: "float64 \<Rightarrow> bool \<Rightarrow> TimeMs \<Rightarrow> RadialAnimation \<Rightarrow> bool \<times> RadialAnimation"
  fade_start :: "float64 \<Rightarrow> float64 \<Rightarrow> int \<Rightarrow> Animation \<Rightarrow> Animation"
  fade_current :: "TimeMs \<Rightarrow> float64 \<Rightarrow> Animation \<Rightarrow> float64"
  fade_step :: "TimeMs \<Rightarrow> Animation \<Rightarrow> Animation"

text \<open>The state of the session and of the application that a call reads.\<close>

record Session =
  doc_loading :: "DocumentPtr \<Rightarrow> bool"
  doc_progress :: "DocumentPtr \<Rightarrow> float64"
  doc_loaded :: "DocumentPtr \<Rightarrow> bool"
  thumb_loaded :: "ImagePtr \<Rightarrow> bool"
  thumb_original :: "ImagePtr \<Rightarrow> QImage"
  theme_background_id :: WallPaperId
  anim_Disabled :: bool
  getms :: TimeMs

text \<open>
  The \<open>Expects\<close>, the \<open>Assert\<close>s and the thrown exception of the functions modelled are
  values.
\<close>

datatype error =
    Assert_paintFrame_index
  | Expects_FillFrame_count
  | Expects_FillFrame_index
  | Frames_resize_length_error
  | Assert_ColorizePattern_resultIntsAdded
  | Assert_ColorizePattern_resultDepth
  | Assert_ColorizePattern_resultBytesPerLine
  | Assert_ColorizePattern_maskBytesAdded
  | Assert_ColorizePattern_maskDepth
  | Expects_paintImage_scaled
  | Expects_step_radial_document

definition bindE :: "error + 'a \<Rightarrow> ('a \<Rightarrow> error + 'b) \<Rightarrow> error + 'b" where
  "bindE m f = (case m of Inl e \<Rightarrow> Inl e | Inr x \<Rightarrow> f x)"

section \<open>Wallpaper slugs (IsValidWallPaperSlug)\<close>

definition kMaxWallPaperSlugLength :: nat where
  "kMaxWallPaperSlugLength = 255"

text \<open>The predicate handed to \<open>ranges::find_if\<close> (lines 266-273).\<close>

definition slug_char_rejected :: "QChar \<Rightarrow> bool" where
  "slug_char_rejected ch \<longleftrightarrow>
     (ch \<noteq> latin1 CHR ''.'')
     \<and> (ch \<noteq> latin1 CHR ''_'')
     \<and> (ch \<noteq> latin1 CHR ''-'')
     \<and> (ch < latin1 CHR ''0'' \<or> ch > latin1 CHR ''9'')
     \<and> (ch < latin1 CHR ''a'' \<or> ch > latin1 CHR ''z'')
     \<and> (ch < latin1 CHR ''A'' \<or> ch > latin1 CHR ''Z'')"

definition IsValidWallPaperSlug :: "QString \<Rightarrow> bool" where
  "IsValidWallPaperSlug slug =
     (if slug = [] \<or> length slug > kMaxWallPaperSlugLength then False
      else find slug_char_rejected slug = None)"

section \<open>The frames of the check animation (ServiceCheck::Generator)\<close>

text \<open>
  \<open>Frames\<close>: the strip of frames and the flags of the frames already painted. Of the
  image, the model keeps its size and which frame was painted with which routine.
\<close>

datatype frame_paint = PaintFillingFrame float64 | PaintCheckingFrame float64

record Frames =
  frames_size :: "int \<times> int"
  frames_painted :: "(int \<times> frame_paint) list"
  ready :: "bool list"

text \<open>
  \<open>_data\<close> maps a style (by pointer in the source; a style is a constant object, so the
  pointer stands for its value) to its frames.
\<close>

record Generator =
  gen_data :: "ServiceCheck_style \<rightharpoonup> Frames"

definition Generator_new :: Generator where
  "Generator_new = \<lparr>gen_data = Map.empty\<rparr>"

definition invalidate :: "Generator \<Rightarrow> Generator" where
  "invalidate g = g\<lparr>gen_data := Map.empty\<rparr>"

text \<open>The count of frames (line 108), in 32-bit arithmetic.\<close>

definition frames_count :: "Externals \<Rightarrow> ServiceCheck_style \<Rightarrow> int" where
  "frames_count ext st = int32 (int32 (cpp_div (duration st) (AnimationTimerDelta ext)) + 2)"

text \<open>
  \<open>framesForStyle\<close> (lines 101-116). \<open>ready.resize(count)\<close> takes a \<open>size_t\<close>: a negative
  count is a size no vector can have, and \<open>resize\<close> throws.
\<close>

definition framesForStyle ::
  "Externals \<Rightarrow> ServiceCheck_style \<Rightarrow> Generator \<Rightarrow> error + (Frames \<times> Generator)" where
  "framesForStyle ext st g =
     (case gen_data g st of
        Some frames \<Rightarrow> Inr (frames, g)
      | None \<Rightarrow>
          (let size' = diameter st;
               count = frames_count ext st
           in if count < 0 then Inl Frames_resize_length_error
              else
                (let result =
                       \<lparr>frames_size =
                          (int32 (int32 (count * size') * cIntRetinaFactor ext),
                           int32 (size' * cIntRetinaFactor ext)),
                        frames_painted = [],
                        ready = replicate (nat count) False\<rparr>
                 in Inr (result, g\<lparr>gen_data := (gen_data g)(st \<mapsto> result)\<rparr>))))"

text \<open>\<open>FillFrame\<close> (lines 118-136).\<close>

definition FillFrame :: "ServiceCheck_style \<Rightarrow> int \<Rightarrow> int \<Rightarrow> error + frame_paint" where
  "FillFrame st index count =
     (if \<not> count > 1 then Inl Expects_FillFrame_count
      else if \<not> (index \<ge> 0 \<and> index < count) then Inl Expects_FillFrame_index
      else
        (let progress = float64_round (real_of_int index / real_of_int (int32 (count - 1)))
         in if progress > 0.5
            then Inr (PaintCheckingFrame (float64_round (float64_round (progress - 0.5) * 2)))
            else Inr (PaintFillingFrame (float64_round (progress * 2)))))"

text \<open>
  The frame index (line 204): \<open>count - 1\<close> in 32 bits, converted to \<open>float64\<close> exactly, the
  product rounded to \<open>float64\<close>, then \<open>std::round\<close>.
\<close>

definition frame_index :: "float64 \<Rightarrow> int \<Rightarrow> int" where
  "frame_index toggled count =
     std_round (float64_round (toggled * real_of_int (int32 (count - 1))))"

text \<open>
  \<open>paintFrame\<close> (lines 195-216). The result is the part of the strip drawn (where it
  starts and its size) and the generator, with the frame marked ready once painted.
\<close>

definition paintFrame ::
  "Externals \<Rightarrow> ServiceCheck_style \<Rightarrow> float64 \<Rightarrow> Generator
     \<Rightarrow> error + ((int \<times> int) \<times> Generator)" where
  "paintFrame ext st toggled g =
     bindE (framesForStyle ext st g) (\<lambda>(frames, g1).
       let count = int32 (int (length (ready frames)));
           index = frame_index toggled count
       in if \<not> (index \<ge> 0 \<and> index < count) then Inl Assert_paintFrame_index
          else
            bindE
              (if \<not> ready frames ! nat index
               then bindE (FillFrame st index count) (\<lambda>painted.
                      Inr (frames\<lparr>ready := (ready frames)[nat index := True],
                                  frames_painted := frames_painted frames @ [(index, painted)]\<rparr>))
               else Inr frames)
              (\<lambda>frames'.
                 let size' = diameter st;
                     part = int32 (size' * cIntRetinaFactor ext)
                 in Inr ((int32 (index * part), part),
                         g1\<lparr>gen_data := (gen_data g1)(st \<mapsto> frames')\<rparr>)))"

text \<open>
  The generator keeps, for every style it holds frames for, as many flags as
  \<open>framesForStyle\<close> made for it.
\<close>

definition frames_sized :: "Externals \<Rightarrow> Generator \<Rightarrow> bool" where
  "frames_sized ext g \<longleftrightarrow>
     (\<forall>st frames. gen_data g st = Some frames
        \<longrightarrow> int (length (ready frames)) = frames_count ext st)"

section \<open>Colouring a pattern (ColorizePattern)\<close>

text \<open>
  The byte at offset \<open>p\<close> of the buffer. \<open>anim::ShiftedMultiplier\<close> and \<open>anim::Shifted\<close>
  are 64-bit values; the conversion from a colour, the product and the conversion back
  are defined outside this file and are parameters.
\<close>

definition read_byte :: "32 word list \<Rightarrow> nat \<Rightarrow> 8 word" where
  "read_byte buf p = ucast (drop_bit (8 * (p mod 4)) (buf ! (p div 4)))"

definition colorize_pixel :: "Externals \<Rightarrow> 64 word \<Rightarrow> 8 word \<Rightarrow> 32 word" where
  "colorize_pixel ext pattern maskByte =
     (let maskOpacity = (ucast maskByte :: 64 word) + 1
      in anim_unshifted ext (anim_multiply ext pattern maskOpacity))"

text \<open>
  The inner loop (lines 361-366), for the \<open>n\<close> pixels left in the row: \<open>maskBytes\<close> is an
  offset in bytes, \<open>resultInts\<close> an offset in \<open>uint32\<close>, both into the one buffer.
\<close>

fun colorize_row ::
  "Externals \<Rightarrow> 64 word \<Rightarrow> nat \<Rightarrow> nat \<Rightarrow> nat \<Rightarrow> nat \<Rightarrow> nat \<Rightarrow> 32 word list
     \<Rightarrow> nat \<times> nat \<times> 32 word list" where
  "colorize_row ext pattern maskBytesPerPixel resultIntsPerPixel 0 maskBytes resultInts buf =
     (maskBytes, resultInts, buf)"
| "colorize_row ext pattern maskBytesPerPixel resultIntsPerPixel (Suc n) maskBytes resultInts buf =
     colorize_row ext pattern maskBytesPerPixel resultIntsPerPixel n
       (maskBytes + maskBytesPerPixel) (resultInts + resultIntsPerPixel)
       (buf[resultInts := colorize_pixel ext pattern (read_byte buf maskBytes)])"

text \<open>The outer loop (lines 360-369), for the \<open>n\<close> rows left.\<close>

fun colorize_rows ::
  "Externals \<Rightarrow> 64 word \<Rightarrow> nat \<Rightarrow> nat \<Rightarrow> nat \<Rightarrow> nat \<Rightarrow> nat \<Rightarrow> nat \<Rightarrow> nat \<Rightarrow> nat
     \<Rightarrow> 32 word list \<Rightarrow> 32 word list" where
  "colorize_rows ext pattern maskBytesPerPixel resultIntsPerPixel width' maskBytesAdded
       resultIntsAdded 0 maskBytes resultInts buf = buf"
| "colorize_rows ext pattern maskBytesPerPixel resultIntsPerPixel width' maskBytesAdded
       resultIntsAdded (Suc n) maskBytes resultInts buf =
     (case colorize_row ext pattern maskBytesPerPixel resultIntsPerPixel width'
             maskBytes resultInts buf of
        (maskBytes', resultInts', buf') \<Rightarrow>
          colorize_rows ext pattern maskBytesPerPixel resultIntsPerPixel width' maskBytesAdded
            resultIntsAdded n (maskBytes' + maskBytesAdded) (resultInts' + resultIntsAdded) buf')"

text \<open>The image as the loops see it: converted unless it is premultiplied ARGB32 already.\<close>

definition premultiplied :: "Externals \<Rightarrow> QImage \<Rightarrow> QImage" where
  "premultiplied ext img =
     (if format img \<noteq> Format_ARGB32_Premultiplied
      then convertToFormat ext img Format_ARGB32_Premultiplied
      else img)"

text \<open>\<open>ColorizePattern\<close> (lines 326-371).\<close>

definition ColorizePattern :: "Externals \<Rightarrow> QImage \<Rightarrow> QColor \<Rightarrow> error + QImage" where
  "ColorizePattern ext image0 color =
     (let img = premultiplied ext image0;
          width' = int (width img);
          height' = height img;
          pattern = anim_shifted ext color;
          resultBytesPerPixel = drop_bit 3 (int (depth img));
          resultIntsPerPixel = 1;
          resultIntsPerLine = drop_bit 2 (int (bytesPerLine img));
          resultIntsAdded = resultIntsPerLine - width' * resultIntsPerPixel
      in if \<not> resultIntsAdded \<ge> 0 then Inl Assert_ColorizePattern_resultIntsAdded
         else if \<not> int (depth img) = push_bit 3 (resultIntsPerPixel * 4)
           then Inl Assert_ColorizePattern_resultDepth
         else if \<not> int (bytesPerLine img) = push_bit 2 resultIntsPerLine
           then Inl Assert_ColorizePattern_resultBytesPerLine
         else
           (let maskBytesPerPixel = drop_bit 3 (int (depth img));
                maskBytesPerLine = int (bytesPerLine img);
                maskBytesAdded = maskBytesPerLine - width' * maskBytesPerPixel;
                maskBytes = maskBytesPerPixel - 1
            in if \<not> maskBytesAdded \<ge> 0 then Inl Assert_ColorizePattern_maskBytesAdded
               else if \<not> int (depth img) = push_bit 3 maskBytesPerPixel
                 then Inl Assert_ColorizePattern_maskDepth
               else
                 Inr (img\<lparr>bits :=
                        colorize_rows ext pattern (nat maskBytesPerPixel) (nat resultIntsPerPixel)
                          (width img) (nat maskBytesAdded) (nat resultIntsAdded) height'
                          (nat maskBytes) 0 (bits img)\<rparr>)))"

text \<open>
  \<open>PrepareScaledNonPattern\<close> (lines 303-324), in 32-bit arithmetic; \<open>blur\<close> is the
  \<open>Images::Option\<close> passed.
\<close>

definition PrepareScaledNonPattern :: "Externals \<Rightarrow> QImage \<Rightarrow> bool \<Rightarrow> QImage" where
  "PrepareScaledNonPattern ext img blur =
     (let size' = st_boxWideWidth ext;
          width' = max (int (width img)) 1;
          height' = max (int (height img)) 1;
          takeWidth =
            (if width' > height' then int32 (cpp_div (int32 (width' * size')) height')
             else size');
          takeHeight =
            (if width' > height' then size'
             else int32 (cpp_div (int32 (height' * size')) width'))
      in Images_prepare ext img
           (int32 (takeWidth * cIntRetinaFactor ext)) (int32 (takeHeight * cIntRetinaFactor ext))
           blur size' size')"

text \<open>\<open>PrepareScaledFromFull\<close> (lines 373-385).\<close>

definition PrepareScaledFromFull ::
  "Externals \<Rightarrow> QImage \<Rightarrow> QColor option \<Rightarrow> bool \<Rightarrow> error + QImage" where
  "PrepareScaledFromFull ext img patternBackground blur =
     bindE
       (let result = PrepareScaledNonPattern ext img blur
        in case patternBackground of
             Some c \<Rightarrow> ColorizePattern ext result (PatternColor ext c)
           | None \<Rightarrow> Inr result)
       (\<lambda>result. Inr (convertToFormat ext result Format_ARGB32_Premultiplied))"

section \<open>The cancellation guard (base::binary_guard)\<close>

text \<open>
  Modelled from the spec: \<open>base::binary_guard\<close> is declared outside this file; the spec
  names it a move-only binary guard around the cancellable decode. A guard is a pointer
  to a flag shared by the two halves that \<open>make_binary_guard\<close> returns (or null); a half
  is alive while both halves are; destroying a half, or assigning over it, clears the
  flag.
\<close>

type_synonym binary_guard = "nat option"

record GuardHeap =
  next_flag :: nat
  bothAlive :: "nat \<Rightarrow> bool"

definition GuardHeap_empty :: GuardHeap where
  "GuardHeap_empty = \<lparr>next_flag = 0, bothAlive = (\<lambda>_. False)\<rparr>"

definition make_binary_guard :: "GuardHeap \<Rightarrow> (binary_guard \<times> binary_guard) \<times> GuardHeap" where
  "make_binary_guard h =
     ((Some (next_flag h), Some (next_flag h)),
      h\<lparr>next_flag := Suc (next_flag h), bothAlive := (bothAlive h)(next_flag h := True)\<rparr>)"

definition guard_alive :: "GuardHeap \<Rightarrow> binary_guard \<Rightarrow> bool" where
  "guard_alive h g = (case g of None \<Rightarrow> False | Some flag \<Rightarrow> bothAlive h flag)"

definition guard_destroy :: "binary_guard \<Rightarrow> GuardHeap \<Rightarrow> GuardHeap" where
  "guard_destroy g h =
     (case g of None \<Rightarrow> h | Some flag \<Rightarrow> h\<lparr>bothAlive := (bothAlive h)(flag := False)\<rparr>)"

section \<open>The box (BackgroundPreviewBox)\<close>

datatype action = Action_apply | Action_closeBox | Action_share

text \<open>The calls of the box into the application and the toolkit, in order.\<close>

datatype effect =
    SetTitle LangKey
  | AddButton LangKey action
  | AddLeftButton LangKey action
  | LoadThumbnail
  | LoadDocument
  | SetDimensions int int
  | Update
  | Update_radialRect
  | SetChatBackground WallPaper QImage
  | InstallWallPaper WallPaper
  | CloseBox
  | ClipboardSetText QString
  | ToastShow LangKey
  | ReadImageAsync DocumentPtr binary_guard
  | DecodeAsync QImage "QColor option" binary_guard
  | ShowBackgroundPreviewBox WallPaper
  | ShowInformBox LangKey
  | RequestWallPaper QString "(QString \<times> QString) list"

text \<open>What a paint routine does with its \<open>Painter\<close>; widget geometry is left out.\<close>

datatype paint =
    FillRect QColor
  | FillRect_boxBg
  | DrawPixmap QPixmap
  | SetOpacity float64
  | SetPen_NoPen
  | SetBrush_radialBg
  | DrawEllipse_radialRect
  | RadialDraw RadialAnimation
  | PaintTexts "QColor option"

text \<open>
  The members of the box that the claims are about, the flags of the binary guards on
  the heap, and the effects so far. The two text items are left out.
\<close>

record BackgroundPreviewBox =
  box_paper :: WallPaper
  box_full :: QImage
  box_scaled :: QPixmap
  box_blurred :: QPixmap
  box_fadeOutThumbnail :: QPixmap
  box_fadeIn :: Animation
  box_radial :: RadialAnimation
  box_blur :: "Checkbox option"
  box_serviceBg :: "QColor option"
  box_generating :: binary_guard
  guards :: GuardHeap
  effects :: "effect list"

text \<open>The constructor (lines 389-405): nothing decoded, no animation started.\<close>

definition BackgroundPreviewBox_new :: "WallPaper \<Rightarrow> GuardHeap \<Rightarrow> BackgroundPreviewBox" where
  "BackgroundPreviewBox_new paper h =
     \<lparr>box_paper = paper,
      box_full = QImage_null,
      box_scaled = QPixmap_null,
      box_blurred = QPixmap_null,
      box_fadeOutThumbnail = QPixmap_null,
      box_fadeIn = \<lparr>animating = False, anim_from = 0, anim_to = 0, anim_duration = 0\<rparr>,
      box_radial =
        \<lparr>radial_animating = False, radial_opacity = 0, radial_arc = 0,
         radial_finished = False\<rparr>,
      box_blur = None,
      box_serviceBg = None,
      box_generating = None,
      guards = h,
      effects = []\<rparr>"

definition emit :: "effect \<Rightarrow> BackgroundPreviewBox \<Rightarrow> BackgroundPreviewBox" where
  "emit e b = b\<lparr>effects := effects b @ [e]\<rparr>"

text \<open>\<open>updateServiceBg\<close> (lines 689-695).\<close>

definition updateServiceBg ::
  "Externals \<Rightarrow> QColor option \<Rightarrow> BackgroundPreviewBox \<Rightarrow> BackgroundPreviewBox" where
  "updateServiceBg ext background b =
     (case background of
        Some c \<Rightarrow> b\<lparr>box_serviceBg := Some (AdjustedColor ext (st_msgServiceBg ext) c)\<rparr>
      | None \<Rightarrow> b)"

text \<open>\<open>patternBackgroundColor\<close> (lines 697-699).\<close>

definition patternBackgroundColor :: "BackgroundPreviewBox \<Rightarrow> QColor option" where
  "patternBackgroundColor b =
     (if isPattern (box_paper b) then backgroundColor (box_paper b) else None)"

text \<open>\<open>startFadeInFrom\<close> (lines 673-676).\<close>

definition startFadeInFrom ::
  "Externals \<Rightarrow> QPixmap \<Rightarrow> BackgroundPreviewBox \<Rightarrow> BackgroundPreviewBox" where
  "startFadeInFrom ext previous b =
     b\<lparr>box_fadeOutThumbnail := previous,
       box_fadeIn := fade_start ext 0 1 (duration (st_backgroundCheck ext)) (box_fadeIn b)\<rparr>"

text \<open>\<open>setScaledFromImage\<close> (lines 659-671).\<close>

definition setScaledFromImage ::
  "Externals \<Rightarrow> QImage \<Rightarrow> QImage \<Rightarrow> BackgroundPreviewBox \<Rightarrow> BackgroundPreviewBox" where
  "setScaledFromImage ext img blurred b =
     (let b1 = updateServiceBg ext (Some (CountAverageColor ext img)) b;
          b2 = (if \<not> isNull (box_full b1) then startFadeInFrom ext (box_scaled b1) b1 else b1);
          b3 = b2\<lparr>box_scaled := pixmapFromImageInPlace img,
                  box_blurred := pixmapFromImageInPlace blurred\<rparr>
      in case box_blur b3 of
           Some blur \<Rightarrow>
             if document (box_paper b3) = None \<or> \<not> isNull (box_full b3)
             then b3\<lparr>box_blur := Some (blur\<lparr>disabled := False\<rparr>)\<rparr>
             else b3
         | None \<Rightarrow> b3)"

text \<open>\<open>setScaledFromThumb\<close> (lines 639-657).\<close>

definition setScaledFromThumb ::
  "Externals \<Rightarrow> Session \<Rightarrow> BackgroundPreviewBox \<Rightarrow> error + (bool \<times> BackgroundPreviewBox)" where
  "setScaledFromThumb ext ses b =
     (case thumbnail (box_paper b) of
        None \<Rightarrow> Inr (False, b)
      | Some thumb \<Rightarrow>
          if \<not> thumb_loaded ses thumb then Inr (False, b)
          else if isPattern (box_paper b) \<and> document (box_paper b) \<noteq> None then Inr (False, b)
          else
            bindE
              (PrepareScaledFromFull ext (thumb_original ses thumb) (patternBackgroundColor b)
                 (document (box_paper b) \<noteq> None))
              (\<lambda>scaled.
                 let blurred =
                       (if document (box_paper b) \<noteq> None \<or> isPattern (box_paper b)
                        then QImage_null
                        else PrepareScaledNonPattern ext
                               (PrepareBlurredBackground ext (thumb_original ses thumb)) False)
                 in Inr (True, setScaledFromImage ext scaled blurred b)))"

text \<open>\<open>checkBlurAnimationStart\<close> (lines 678-687).\<close>

definition checkBlurAnimationStart ::
  "Externals \<Rightarrow> BackgroundPreviewBox \<Rightarrow> BackgroundPreviewBox" where
  "checkBlurAnimationStart ext b =
     (if animating (box_fadeIn b) \<or> pixmap_isNull (box_blurred b) then b
      else case box_blur b of
             None \<Rightarrow> b
           | Some blur \<Rightarrow>
               if isBlurred (box_paper b) = checked blur then b
               else
                 (let b1 = b\<lparr>box_paper := withBlurred ext (box_paper b) (checked blur)\<rparr>
                  in startFadeInFrom ext
                       (if isBlurred (box_paper b1) then box_scaled b1 else box_blurred b1) b1))"

text \<open>
  \<open>createBlurCheckbox\<close> (lines 437-476): the checkbox starts with the paper's blur flag
  and disabled. Its subscriptions are the events \<open>BlurChecked\<close> and \<open>PaintEvent\<close> below.
\<close>

definition createBlurCheckbox :: "BackgroundPreviewBox \<Rightarrow> BackgroundPreviewBox" where
  "createBlurCheckbox b =
     (let blur = \<lparr>checked = isBlurred (box_paper b), disabled = False\<rparr>
      in b\<lparr>box_blur := Some (blur\<lparr>disabled := True\<rparr>)\<rparr>)"

text \<open>
  Modelled from the spec: \<open>Data::ReadImageAsync\<close> is defined outside this file. The
  cancellable read makes a pair of guards, gives one half to its reading task and
  returns the other to the caller.
\<close>

definition ReadImageAsync_start ::
  "DocumentPtr \<Rightarrow> GuardHeap \<Rightarrow> (binary_guard \<times> effect) \<times> GuardHeap" where
  "ReadImageAsync_start doc h =
     (case make_binary_guard h of
        ((left, right), h') \<Rightarrow> ((right, ReadImageAsync doc left), h'))"

text \<open>
  \<open>checkLoadedDocument\<close> (lines 701-745), up to the call of \<open>Data::ReadImageAsync\<close>, whose
  guard is assigned to \<open>_generating\<close>.
\<close>

definition checkLoadedDocument ::
  "Externals \<Rightarrow> Session \<Rightarrow> BackgroundPreviewBox \<Rightarrow> BackgroundPreviewBox" where
  "checkLoadedDocument ext ses b =
     (if \<not> isNull (box_full b) then b
      else case document (box_paper b) of
             None \<Rightarrow> b
           | Some doc \<Rightarrow>
               if \<not> doc_loaded ses doc then b
               else if guard_alive (guards b) (box_generating b) then b
               else
                 (case ReadImageAsync_start doc (guards b) of
                    ((guard, task), h) \<Rightarrow>
                      emit task
                        (b\<lparr>guards := guard_destroy (box_generating b) h,
                           box_generating := guard\<rparr>)))"

text \<open>
  \<open>generateCallback\<close> (lines 709-740), run on the main thread with the image read: a new
  pair of guards, the left half assigned to \<open>_generating\<close>, the right half given to the
  decode task together with the image and the pattern background.
\<close>

definition generateCallback :: "QImage \<Rightarrow> BackgroundPreviewBox \<Rightarrow> BackgroundPreviewBox" where
  "generateCallback img b =
     (case make_binary_guard (guards b) of
        ((left, right), h) \<Rightarrow>
          emit (DecodeAsync img (patternBackgroundColor b) right)
            (b\<lparr>guards := guard_destroy (box_generating b) h,
               box_generating := left\<rparr>))"

text \<open>The decode task itself (lines 717-724), off the main thread: the two images.\<close>

definition decode_task ::
  "Externals \<Rightarrow> QImage \<Rightarrow> QColor option \<Rightarrow> error + (QImage \<times> QImage)" where
  "decode_task ext img patternBackground =
     bindE (PrepareScaledFromFull ext img patternBackground False) (\<lambda>scaled.
       let blurred =
             (case patternBackground of
                Some _ \<Rightarrow> QImage_null
              | None \<Rightarrow>
                  PrepareScaledNonPattern ext (PrepareBlurredBackground ext img) False)
       in Inr (scaled, blurred))"

text \<open>
  The completion of the decode on the main thread (lines 725-738), holding the guard
  \<open>guard\<close>; the guard is destroyed with the completion, after it ran.
\<close>

definition decode_completion ::
  "Externals \<Rightarrow> binary_guard \<Rightarrow> QImage \<Rightarrow> QImage \<Rightarrow> QImage
     \<Rightarrow> BackgroundPreviewBox \<Rightarrow> BackgroundPreviewBox" where
  "decode_completion ext guard img scaled blurred b =
     (let b' =
            (if \<not> guard_alive (guards b) guard then b
             else emit Update (setScaledFromImage ext scaled blurred (b\<lparr>box_full := img\<rparr>)))
      in b'\<lparr>guards := guard_destroy guard (guards b')\<rparr>)"

text \<open>
  The members of a box are destroyed with it, \<open>_generating\<close> among them: what is left
  of a destroyed box is the heap of guards.
\<close>

definition box_destroyed :: "BackgroundPreviewBox \<Rightarrow> GuardHeap" where
  "box_destroyed b = guard_destroy (box_generating b) (guards b)"

text \<open>\<open>step_radial\<close> (lines 622-637).\<close>

definition step_radial ::
  "Externals \<Rightarrow> Session \<Rightarrow> TimeMs \<Rightarrow> bool \<Rightarrow> BackgroundPreviewBox
     \<Rightarrow> error + BackgroundPreviewBox" where
  "step_radial ext ses ms timer b =
     (case document (box_paper b) of
        None \<Rightarrow> Inl Expects_step_radial_document
      | Some doc \<Rightarrow>
          (let wasAnimating = radial_animating (box_radial b);
               (updated, radial) =
                  radial_update ext (doc_progress ses doc) (\<not> doc_loading ses doc) ms
                    (box_radial b);
               b1 = b\<lparr>box_radial := radial\<rparr>;
               b2 = (if timer
                        \<and> (wasAnimating \<or> radial_animating (box_radial b1))
                        \<and> (\<not> anim_Disabled ses \<or> updated)
                     then emit Update_radialRect b1 else b1)
           in Inr (checkLoadedDocument ext ses b2)))"

text \<open>
  \<open>paintRadial\<close> (lines 547-572). \<open>_radial.step(ms)\<close> runs the callback the constructor
  gave the animation (line 403): \<open>step_radial\<close>, not from the timer.
\<close>

definition paintRadial ::
  "Externals \<Rightarrow> Session \<Rightarrow> TimeMs \<Rightarrow> paint list \<Rightarrow> BackgroundPreviewBox
     \<Rightarrow> error + (paint list \<times> BackgroundPreviewBox)" where
  "paintRadial ext ses ms p b =
     bindE
       (if radial_animating (box_radial b)
        then bindE (step_radial ext ses ms False b) (\<lambda>b1.
               Inr (radial_animating (box_radial b1), radial_opacity (box_radial b1), b1))
        else Inr (False, 0, b))
       (\<lambda>(radial, radialOpacity, b1).
          if \<not> radial then Inr (p, b1)
          else Inr (p @ [SetPen_NoPen, SetOpacity radialOpacity, SetBrush_radialBg,
                         DrawEllipse_radialRect, SetOpacity 1, RadialDraw (box_radial b1)],
                    b1))"

text \<open>The pixmap that \<open>paintImage\<close> draws (lines 539-541).\<close>

definition shown_pixmap :: "BackgroundPreviewBox \<Rightarrow> QPixmap" where
  "shown_pixmap b =
     (if \<not> pixmap_isNull (box_blurred b) \<and> isBlurred (box_paper b)
      then box_blurred b else box_scaled b)"

text \<open>\<open>paintImage\<close> (lines 519-545).\<close>

definition paintImage ::
  "Externals \<Rightarrow> TimeMs \<Rightarrow> paint list \<Rightarrow> BackgroundPreviewBox
     \<Rightarrow> error + (paint list \<times> BackgroundPreviewBox)" where
  "paintImage ext ms p b =
     (if \<not> (\<not> pixmap_isNull (box_scaled b)) then Inl Expects_paintImage_scaled
      else
        (let master =
               (if isPattern (box_paper b)
                then max 0
                       (min 1 (float64_round (real_of_int (patternIntensity (box_paper b)) / 100)))
                else 1);
             fade = fade_current ext ms 1 (box_fadeIn b);
             p1 = (if fade < 1 \<and> \<not> pixmap_isNull (box_fadeOutThumbnail b)
                   then p @ [DrawPixmap (box_fadeOutThumbnail b)] else p);
             pixmap = shown_pixmap b;
             p2 = p1 @ [SetOpacity (float64_round (master * fade)), DrawPixmap pixmap];
             b1 = checkBlurAnimationStart ext b
         in Inr (p2 @ [SetOpacity 1], b1)))"

text \<open>\<open>paintTexts\<close> with \<open>paintDate\<close> (lines 591-620), as one step.\<close>

definition paintTexts :: "paint list \<Rightarrow> BackgroundPreviewBox \<Rightarrow> paint list" where
  "paintTexts p b = p @ [PaintTexts (box_serviceBg b)]"

text \<open>\<open>paintEvent\<close> (lines 496-517).\<close>

definition paintEvent ::
  "Externals \<Rightarrow> Session \<Rightarrow> BackgroundPreviewBox \<Rightarrow> error + (paint list \<times> BackgroundPreviewBox)" where
  "paintEvent ext ses b =
     (let ms = getms ses;
          color = backgroundColor (box_paper b);
          p = (case color of Some c \<Rightarrow> [FillRect c] | None \<Rightarrow> [])
      in if color = None \<or> isPattern (box_paper b)
         then
           bindE
             (if \<not> pixmap_isNull (box_scaled b) then Inr (True, b)
              else setScaledFromThumb ext ses b)
             (\<lambda>(drawn, b1).
                if drawn
                then bindE (paintImage ext ms p b1) (\<lambda>(p1, b2).
                     bindE (paintRadial ext ses ms p1 b2) (\<lambda>(p2, b3).
                       Inr (paintTexts p2 b3, b3)))
                else if color = None then Inr (p @ [FillRect_boxBg], b1)
                else bindE (paintRadial ext ses ms p b1) (\<lambda>(p2, b3).
                       Inr (paintTexts p2 b3, b3)))
         else Inr (paintTexts p b, b))"

text \<open>\<open>prepare\<close> (lines 407-435).\<close>

definition prepare ::
  "Externals \<Rightarrow> Session \<Rightarrow> BackgroundPreviewBox \<Rightarrow> error + BackgroundPreviewBox" where
  "prepare ext ses b =
     (let b1 = emit (SetTitle lng_background_header) b;
          b2 = emit (AddButton lng_background_apply Action_apply) b1;
          b3 = emit (AddButton lng_cancel Action_closeBox) b2;
          b4 = (if hasShareUrl (box_paper b3)
                then emit (AddLeftButton lng_background_share Action_share) b3 else b3);
          b5 = updateServiceBg ext (backgroundColor (box_paper b4)) b4;
          b6 = emit LoadDocument (emit LoadThumbnail b5);
          b7 = (case document (box_paper b6) of
                  Some doc \<Rightarrow>
                    if doc_loading ses doc
                    then b6\<lparr>box_radial := radial_start ext (doc_progress ses doc) (box_radial b6)\<rparr>
                    else b6
                | None \<Rightarrow> b6);
          b8 = (if thumbnail (box_paper b7) \<noteq> None \<and> \<not> isPattern (box_paper b7)
                then createBlurCheckbox b7 else b7)
      in bindE (setScaledFromThumb ext ses b8) (\<lambda>(_, b9).
           let b10 = checkLoadedDocument ext ses b9
           in Inr (emit (SetDimensions (st_boxWideWidth ext) (st_boxWideWidth ext)) b10)))"

text \<open>
  \<open>apply\<close> (lines 478-489). \<open>install\<close> is computed before the background is set.
\<close>

definition apply_background ::
  "Externals \<Rightarrow> Session \<Rightarrow> BackgroundPreviewBox \<Rightarrow> BackgroundPreviewBox" where
  "apply_background ext ses b =
     (let install = (paper_id (box_paper b) \<noteq> theme_background_id ses)
                      \<and> IsCloudWallPaper ext (box_paper b);
          b1 = emit (SetChatBackground (box_paper b) (box_full b)) b;
          b2 = (if install then emit (InstallWallPaper (box_paper b1)) b1 else b1)
      in emit CloseBox b2)"

text \<open>\<open>share\<close> (lines 491-494).\<close>

definition share :: "BackgroundPreviewBox \<Rightarrow> BackgroundPreviewBox" where
  "share b =
     emit (ToastShow lng_background_link_copied)
       (emit (ClipboardSetText (shareUrl (box_paper b))) b)"

text \<open>
  \<open>Start\<close> (lines 747-764): the value returned and the effects before it returns; the
  two callbacks handed to \<open>requestWallPaper\<close> run later.
\<close>

definition Start ::
  "Externals \<Rightarrow> QString \<Rightarrow> (QString \<times> QString) list \<Rightarrow> bool \<times> effect list" where
  "Start ext slug params =
     (case FromColorSlug ext slug of
        Some paper \<Rightarrow> (True, [ShowBackgroundPreviewBox (withUrlParams ext paper params)])
      | None \<Rightarrow>
          if \<not> IsValidWallPaperSlug slug
          then (False, [ShowInformBox lng_background_bad_link])
          else (True, [RequestWallPaper slug params]))"

definition Start_done :: "Externals \<Rightarrow> (QString \<times> QString) list \<Rightarrow> WallPaper \<Rightarrow> effect list" where
  "Start_done ext params result = [ShowBackgroundPreviewBox (withUrlParams ext result params)]"

definition Start_fail :: "effect list" where
  "Start_fail = [ShowInformBox lng_background_bad_link]"

section \<open>The life of a box\<close>

text \<open>
  What the toolkit and the application deliver to a box once it is prepared: a paint
  request; a tick of the animation timer, which steps only animations that are running;
  a change of the blur checkbox (lines 469-473); a step of the fade-in animation, whose
  callback is \<open>update()\<close>; the image read by \<open>ReadImageAsync\<close>, delivered to
  \<open>generateCallback\<close> if the guard of the read is alive; the completion of a decode; a
  click on a button that the box has added; a finished download (line 404).
\<close>

fun is_button :: "action \<Rightarrow> effect \<Rightarrow> bool" where
  "is_button a (AddButton _ a') = (a' = a)"
| "is_button a (AddLeftButton _ a') = (a' = a)"
| "is_button a _ = False"

definition has_button :: "action \<Rightarrow> BackgroundPreviewBox \<Rightarrow> bool" where
  "has_button a b = list_ex (is_button a) (effects b)"

datatype event =
    PaintEvent
  | RadialTimer TimeMs
  | BlurChecked bool
  | FadeInStep TimeMs
  | ImageRead binary_guard QImage
  | DecodeDone binary_guard QImage QImage QImage
  | ButtonClicked action
  | DownloaderTaskFinished

fun handle_event ::
  "Externals \<Rightarrow> Session \<Rightarrow> event \<Rightarrow> BackgroundPreviewBox \<Rightarrow> error + BackgroundPreviewBox" where
  "handle_event ext ses PaintEvent b =
     bindE (paintEvent ext ses b) (\<lambda>(p, b'). Inr b')"
| "handle_event ext ses (RadialTimer ms) b =
     (if radial_animating (box_radial b) then step_radial ext ses ms True b else Inr b)"
| "handle_event ext ses (BlurChecked c) b =
     (case box_blur b of
        None \<Rightarrow> Inr b
      | Some blur \<Rightarrow>
          Inr (emit Update
                 (checkBlurAnimationStart ext (b\<lparr>box_blur := Some (blur\<lparr>checked := c\<rparr>)\<rparr>))))"
| "handle_event ext ses (FadeInStep ms) b =
     Inr (emit Update (b\<lparr>box_fadeIn := fade_step ext ms (box_fadeIn b)\<rparr>))"
| "handle_event ext ses (ImageRead guard img) b =
     (let b' = (if guard_alive (guards b) guard then generateCallback img b else b)
      in Inr (b'\<lparr>guards := guard_destroy guard (guards b')\<rparr>))"
| "handle_event ext ses (DecodeDone guard img scaled blurred) b =
     Inr (decode_completion ext guard img scaled blurred b)"
| "handle_event ext ses (ButtonClicked a) b =
     (if \<not> has_button a b then Inr b
      else case a of
             Action_apply \<Rightarrow> Inr (apply_background ext ses b)
           | Action_closeBox \<Rightarrow> Inr (emit CloseBox b)
           | Action_share \<Rightarrow> Inr (share b))"
| "handle_event ext ses DownloaderTaskFinished b = Inr (emit Update b)"

text \<open>A run: each event with the state of the session at its time; the first error ends it.\<close>

fun run ::
  "Externals \<Rightarrow> (Session \<times> event) list \<Rightarrow> BackgroundPreviewBox \<Rightarrow> error + BackgroundPreviewBox" where
  "run ext [] b = Inr b"
| "run ext ((ses, ev) # evs) b = bindE (handle_event ext ses ev b) (run ext evs)"

section \<open>The slug rule in the words of the specification\<close>

definition slug_char_allowed :: "QChar \<Rightarrow> bool" where
  "slug_char_allowed ch \<longleftrightarrow>
     (latin1 CHR ''a'' \<le> ch \<and> ch \<le> latin1 CHR ''z'')
     \<or> (latin1 CHR ''A'' \<le> ch \<and> ch \<le> latin1 CHR ''Z'')
     \<or> (latin1 CHR ''0'' \<le> ch \<and> ch \<le> latin1 CHR ''9'')
     \<or> ch = latin1 CHR ''.'' \<or> ch = latin1 CHR ''_'' \<or> ch = latin1 CHR ''-''"

definition slug_rejected :: "QString \<Rightarrow> bool" where
  "slug_rejected slug \<longleftrightarrow>
     slug = [] \<or> length slug > 255 \<or> list_ex (\<lambda>ch. \<not> slug_char_allowed ch) slug"

section \<open>Example values\<close>

definition example_paper :: WallPaper where
  "example_paper =
     \<lparr>paper_id = 7, document = Some 1, thumbnail = Some 2, isPattern = False,
      isBlurred = False, backgroundColor = None, patternIntensity = 50,
      hasShareUrl = True, shareUrl = fromLatin1 ''https://t.me/bg/abc''\<rparr>"

definition example_image :: QImage where
  "example_image =
     \<lparr>format = Format_ARGB32_Premultiplied, width = 2, height = 2, depth = 32,
      bytesPerLine = 8, bits = [0xFF000000, 0x80000000, 0x00000000, 0x40102030]\<rparr>"

definition example_ext :: Externals where
  "example_ext =
     \<lparr>convertToFormat = (\<lambda>img f. img\<lparr>format := f\<rparr>),
      Images_prepare = (\<lambda>img w h blur ow oh. img),
      PrepareBlurredBackground = (\<lambda>img. img),
      PatternColor = (\<lambda>c. c),
      CountAverageColor = (\<lambda>img. \<lparr>red = 0, green = 0, blue = 0, alpha = 255\<rparr>),
      AdjustedColor = (\<lambda>original background. background),
      anim_shifted = (\<lambda>c. word_of_int (blue c)),
      anim_multiply = (\<lambda>a b. a * b),
      anim_unshifted = (\<lambda>v. ucast v),
      st_boxWideWidth = 364,
      st_msgServiceBg = \<lparr>red = 0, green = 0, blue = 0, alpha = 127\<rparr>,
      st_backgroundCheck =
        \<lparr>diameter = 18, duration = 200, shift = 2, thickness = 2, stroke = 2\<rparr>,
      cIntRetinaFactor = 1,
      AnimationTimerDelta = 7,
      withBlurred = (\<lambda>paper blurred. paper\<lparr>isBlurred := blurred\<rparr>),
      withUrlParams = (\<lambda>paper params. paper),
      FromColorSlug = (\<lambda>slug. None),
      IsCloudWallPaper = (\<lambda>paper. True),
      radial_start = (\<lambda>prg r. r\<lparr>radial_animating := True, radial_arc := prg\<rparr>),
      radial_update =
        (\<lambda>prg finished ms r.
           (True, r\<lparr>radial_animating := \<not> finished, radial_arc := prg,
                    radial_finished := finished\<rparr>)),
      fade_start =
        (\<lambda>from to duration' a.
           \<lparr>animating = True, anim_from = from, anim_to = to, anim_duration = duration'\<rparr>),
      fade_current = (\<lambda>ms def a. if animating a then 1 / 2 else def),
      fade_step = (\<lambda>ms a. a\<lparr>animating := False\<rparr>)\<rparr>"

definition example_session :: Session where
  "example_session =
     \<lparr>doc_loading = (\<lambda>doc. True),
      doc_progress = (\<lambda>doc. 1 / 4),
      doc_loaded = (\<lambda>doc. False),
      thumb_loaded = (\<lambda>thumb. True),
      thumb_original = (\<lambda>thumb. example_image),
      theme_background_id = 3,
      anim_Disabled = False,
      getms = 1000\<rparr>"

definition example_box :: BackgroundPreviewBox where
  "example_box = BackgroundPreviewBox_new example_paper GuardHeap_empty"

definition example_prepared :: BackgroundPreviewBox where
  "example_prepared =
     (case prepare example_ext example_session example_box of
        Inr b \<Rightarrow> b
      | Inl _ \<Rightarrow> example_box)"

text \<open>A box whose images are there and whose checkbox was just checked.\<close>

definition example_blur_box :: BackgroundPreviewBox where
  "example_blur_box =
     example_box
       \<lparr>box_scaled := pixmapFromImageInPlace example_image,
        box_blurred := pixmapFromImageInPlace (example_image\<lparr>bits := [1, 2, 3, 4]\<rparr>),
        box_blur := Some \<lparr>checked = True, disabled = False\<rparr>\<rparr>"

text \<open>
  The example image with other colours under the same alpha bytes, a colour, and what
  both images give when coloured with it.
\<close>

definition example_image_rgb :: QImage where
  "example_image_rgb =
     example_image\<lparr>bits := [0xFF112233, 0x80445566, 0x00778899, 0x40AABBCC]\<rparr>"

definition example_color :: QColor where
  "example_color = \<lparr>red = 1, green = 2, blue = 3, alpha = 255\<rparr>"

definition example_colorized :: QImage where
  "example_colorized =
     \<lparr>format = Format_ARGB32_Premultiplied, width = 2, height = 2, depth = 32,
      bytesPerLine = 8, bits = [768, 387, 3, 195]\<rparr>"

section \<open>Notions of the claims\<close>

text \<open>Effects that have to do with sharing: a button that shares, and the copy itself.\<close>

fun share_related :: "effect \<Rightarrow> bool" where
  "share_related (AddButton _ a) = (a = Action_share)"
| "share_related (AddLeftButton _ a) = (a = Action_share)"
| "share_related (ClipboardSetText _) = True"
| "share_related _ = False"

text \<open>The blur checkbox exists and is enabled.\<close>

definition blur_enabled :: "BackgroundPreviewBox \<Rightarrow> bool" where
  "blur_enabled b = (case box_blur b of Some blur \<Rightarrow> \<not> disabled blur | None \<Rightarrow> False)"

text \<open>
  The precondition of \<open>step_radial\<close> holds whenever the radial animation is running.
\<close>

definition radial_has_document :: "BackgroundPreviewBox \<Rightarrow> bool" where
  "radial_has_document b \<longleftrightarrow>
     (if radial_animating (box_radial b) then document (box_paper b) \<noteq> None else True)"

text \<open>Something that has to do with sharing is among the effects of the box.\<close>

definition share_seen :: "BackgroundPreviewBox \<Rightarrow> bool" where
  "share_seen b = list_ex share_related (effects b)"

text \<open>
  The alpha channel of a pixel of the premultiplied ARGB32 format (\<open>0xAARRGGBB\<close>), and
  the pixel of an image at column \<open>x\<close> of line \<open>y\<close>, a line being \<open>bytesPerLine\<close> bytes.
\<close>

definition alpha_byte :: "32 word \<Rightarrow> 8 word" where
  "alpha_byte px = ucast (drop_bit 24 px)"

definition pixel :: "QImage \<Rightarrow> nat \<Rightarrow> nat \<Rightarrow> 32 word" where
  "pixel img x y = bits img ! (y * (bytesPerLine img div 4) + x)"

text \<open>The buffer holds \<open>height\<close> lines of \<open>bytesPerLine\<close> bytes, as every \<open>QImage\<close> does.\<close>

definition buffer_holds_lines :: "QImage \<Rightarrow> bool" where
  "buffer_holds_lines img \<longleftrightarrow> height img * (bytesPerLine img div 4) \<le> length (bits img)"

text \<open>Index \<open>i\<close> lies in one of \<open>n\<close> rows of \<open>w\<close> pixels that start at \<open>p\<close>, \<open>stride\<close> apart.\<close>

fun in_rows :: "nat \<Rightarrow> nat \<Rightarrow> nat \<Rightarrow> nat \<Rightarrow> nat \<Rightarrow> bool" where
  "in_rows p stride w 0 i = False"
| "in_rows p stride w (Suc n) i = ((p \<le> i \<and> i < p + w) \<or> in_rows (p + stride) stride w n i)"

section \<open>What each operation leaves alone\<close>

lemma emit_fields:
  "box_paper (emit e b) = box_paper b"
  "box_full (emit e b) = box_full b"
  "box_scaled (emit e b) = box_scaled b"
  "box_blurred (emit e b) = box_blurred b"
  "box_fadeOutThumbnail (emit e b) = box_fadeOutThumbnail b"
  "box_fadeIn (emit e b) = box_fadeIn b"
  "box_radial (emit e b) = box_radial b"
  "box_blur (emit e b) = box_blur b"
  "box_serviceBg (emit e b) = box_serviceBg b"
  "box_generating (emit e b) = box_generating b"
  "guards (emit e b) = guards b"
  "effects (emit e b) = effects b @ [e]"
  by (simp_all add: emit_def)

lemma updateServiceBg_fields:
  "box_paper (updateServiceBg ext c b) = box_paper b"
  "box_full (updateServiceBg ext c b) = box_full b"
  "box_scaled (updateServiceBg ext c b) = box_scaled b"
  "box_blurred (updateServiceBg ext c b) = box_blurred b"
  "box_fadeOutThumbnail (updateServiceBg ext c b) = box_fadeOutThumbnail b"
  "box_fadeIn (updateServiceBg ext c b) = box_fadeIn b"
  "box_radial (updateServiceBg ext c b) = box_radial b"
  "box_blur (updateServiceBg ext c b) = box_blur b"
  "box_generating (updateServiceBg ext c b) = box_generating b"
  "guards (updateServiceBg ext c b) = guards b"
  "effects (updateServiceBg ext c b) = effects b"
  by (simp_all add: updateServiceBg_def split: option.split)

lemma startFadeInFrom_fields:
  "box_paper (startFadeInFrom ext q b) = box_paper b"
  "box_full (startFadeInFrom ext q b) = box_full b"
  "box_scaled (startFadeInFrom ext q b) = box_scaled b"
  "box_blurred (startFadeInFrom ext q b) = box_blurred b"
  "box_fadeOutThumbnail (startFadeInFrom ext q b) = q"
  "box_fadeIn (startFadeInFrom ext q b) =
     fade_start ext 0 1 (duration (st_backgroundCheck ext)) (box_fadeIn b)"
  "box_radial (startFadeInFrom ext q b) = box_radial b"
  "box_blur (startFadeInFrom ext q b) = box_blur b"
  "box_serviceBg (startFadeInFrom ext q b) = box_serviceBg b"
  "box_generating (startFadeInFrom ext q b) = box_generating b"
  "guards (startFadeInFrom ext q b) = guards b"
  "effects (startFadeInFrom ext q b) = effects b"
  by (simp_all add: startFadeInFrom_def)

lemma setScaledFromImage_fields:
  "box_paper (setScaledFromImage ext i j b) = box_paper b"
  "box_full (setScaledFromImage ext i j b) = box_full b"
  "box_scaled (setScaledFromImage ext i j b) = pixmapFromImageInPlace i"
  "box_blurred (setScaledFromImage ext i j b) = pixmapFromImageInPlace j"
  "box_radial (setScaledFromImage ext i j b) = box_radial b"
  "box_generating (setScaledFromImage ext i j b) = box_generating b"
  "guards (setScaledFromImage ext i j b) = guards b"
  "effects (setScaledFromImage ext i j b) = effects b"
  by (simp_all add: setScaledFromImage_def Let_def updateServiceBg_fields startFadeInFrom_fields
      split: option.split)

lemma checkBlurAnimationStart_fields:
  "box_full (checkBlurAnimationStart ext b) = box_full b"
  "box_scaled (checkBlurAnimationStart ext b) = box_scaled b"
  "box_blurred (checkBlurAnimationStart ext b) = box_blurred b"
  "box_radial (checkBlurAnimationStart ext b) = box_radial b"
  "box_blur (checkBlurAnimationStart ext b) = box_blur b"
  "box_serviceBg (checkBlurAnimationStart ext b) = box_serviceBg b"
  "box_generating (checkBlurAnimationStart ext b) = box_generating b"
  "guards (checkBlurAnimationStart ext b) = guards b"
  "effects (checkBlurAnimationStart ext b) = effects b"
  by (simp_all add: checkBlurAnimationStart_def Let_def startFadeInFrom_fields
      split: option.split)

lemma checkLoadedDocument_fields:
  "box_paper (checkLoadedDocument ext ses b) = box_paper b"
  "box_full (checkLoadedDocument ext ses b) = box_full b"
  "box_scaled (checkLoadedDocument ext ses b) = box_scaled b"
  "box_blurred (checkLoadedDocument ext ses b) = box_blurred b"
  "box_fadeOutThumbnail (checkLoadedDocument ext ses b) = box_fadeOutThumbnail b"
  "box_fadeIn (checkLoadedDocument ext ses b) = box_fadeIn b"
  "box_radial (checkLoadedDocument ext ses b) = box_radial b"
  "box_blur (checkLoadedDocument ext ses b) = box_blur b"
  "box_serviceBg (checkLoadedDocument ext ses b) = box_serviceBg b"
  by (simp_all add: checkLoadedDocument_def ReadImageAsync_start_def make_binary_guard_def emit_fields
      split: option.split)

lemma createBlurCheckbox_fields:
  "box_paper (createBlurCheckbox b) = box_paper b"
  "box_full (createBlurCheckbox b) = box_full b"
  "box_scaled (createBlurCheckbox b) = box_scaled b"
  "box_blurred (createBlurCheckbox b) = box_blurred b"
  "box_fadeOutThumbnail (createBlurCheckbox b) = box_fadeOutThumbnail b"
  "box_fadeIn (createBlurCheckbox b) = box_fadeIn b"
  "box_radial (createBlurCheckbox b) = box_radial b"
  "box_blur (createBlurCheckbox b) = Some \<lparr>checked = isBlurred (box_paper b), disabled = True\<rparr>"
  "box_serviceBg (createBlurCheckbox b) = box_serviceBg b"
  "box_generating (createBlurCheckbox b) = box_generating b"
  "guards (createBlurCheckbox b) = guards b"
  "effects (createBlurCheckbox b) = effects b"
  by (simp_all add: createBlurCheckbox_def)

lemma setScaledFromThumb_fields:
  assumes "setScaledFromThumb ext ses b = Inr (ok, b')"
  shows "box_paper b' = box_paper b" "box_full b' = box_full b" "box_radial b' = box_radial b"
    "box_generating b' = box_generating b" "guards b' = guards b" "effects b' = effects b"
  using assms
  by (auto simp: setScaledFromThumb_def bindE_def Let_def setScaledFromImage_fields
      split: option.splits if_splits sum.splits)

section \<open>Errors\<close>

lemma bindE_Inr: "bindE m f = Inr y \<longleftrightarrow> (\<exists>x. m = Inr x \<and> f x = Inr y)"
  by (cases m) (simp_all add: bindE_def)

lemma bindE_Inl: "bindE m f = Inl e \<longleftrightarrow> m = Inl e \<or> (\<exists>x. m = Inr x \<and> f x = Inl e)"
  by (cases m) (simp_all add: bindE_def)

section \<open>Guards\<close>

lemma guard_destroy_dead: "\<not> guard_alive h g \<Longrightarrow> guard_destroy g h = h"
  by (cases g) (auto simp: guard_alive_def guard_destroy_def fun_upd_idem_iff)

lemma guard_destroy_kills: "\<not> guard_alive (guard_destroy g h) g"
  by (cases g) (auto simp: guard_alive_def guard_destroy_def)

section \<open>What the paint routines and the radial step leave alone\<close>

lemma generateCallback_fields:
  "box_paper (generateCallback img b) = box_paper b"
  "box_full (generateCallback img b) = box_full b"
  "box_scaled (generateCallback img b) = box_scaled b"
  "box_blurred (generateCallback img b) = box_blurred b"
  "box_fadeOutThumbnail (generateCallback img b) = box_fadeOutThumbnail b"
  "box_fadeIn (generateCallback img b) = box_fadeIn b"
  "box_radial (generateCallback img b) = box_radial b"
  "box_blur (generateCallback img b) = box_blur b"
  "box_serviceBg (generateCallback img b) = box_serviceBg b"
  by (simp_all add: generateCallback_def make_binary_guard_def emit_fields)

lemma apply_background_fields:
  "box_paper (apply_background ext ses b) = box_paper b"
  "box_full (apply_background ext ses b) = box_full b"
  "box_radial (apply_background ext ses b) = box_radial b"
  "box_blur (apply_background ext ses b) = box_blur b"
  by (simp_all add: apply_background_def Let_def emit_fields)

lemma share_fields:
  "box_paper (share b) = box_paper b"
  "box_full (share b) = box_full b"
  "box_radial (share b) = box_radial b"
  "box_blur (share b) = box_blur b"
  by (simp_all add: share_def emit_fields)

lemma step_radial_fields:
  assumes "step_radial ext ses ms timer b = Inr b'"
  shows "box_paper b' = box_paper b" "box_full b' = box_full b" "box_blur b' = box_blur b"
    "box_scaled b' = box_scaled b" "box_blurred b' = box_blurred b"
  using assms
  by (auto simp: step_radial_def Let_def emit_fields checkLoadedDocument_fields
      split: option.splits prod.splits if_splits)

lemma paintRadial_fields:
  assumes "paintRadial ext ses ms p b = Inr (p', b')"
  shows "box_paper b' = box_paper b" "box_full b' = box_full b" "box_blur b' = box_blur b"
  using assms
  by (auto simp: paintRadial_def bindE_def dest: step_radial_fields
      split: if_splits sum.splits)

lemma paintImage_fields:
  assumes "paintImage ext ms p b = Inr (p', b')"
  shows "box_full b' = box_full b" "box_blur b' = box_blur b" "box_radial b' = box_radial b"
    "b' = checkBlurAnimationStart ext b"
  using assms
  by (auto simp: paintImage_def Let_def checkBlurAnimationStart_fields split: if_splits)

lemma setScaledFromImage_blur:
  "box_blur (setScaledFromImage ext i j b) =
     (case box_blur b of
        Some blur \<Rightarrow>
          if document (box_paper b) = None \<or> \<not> isNull (box_full b)
          then Some (blur\<lparr>disabled := False\<rparr>) else Some blur
      | None \<Rightarrow> None)"
  by (auto simp: setScaledFromImage_def Let_def updateServiceBg_fields startFadeInFrom_fields
      split: option.split)

lemma decode_completion_fields:
  "box_paper (decode_completion ext g img scaled blurred b) = box_paper b"
  "box_radial (decode_completion ext g img scaled blurred b) = box_radial b"
  by (simp_all add: decode_completion_def Let_def emit_fields setScaledFromImage_fields)

lemma prepare_fields:
  assumes "prepare ext ses b = Inr b'"
  shows "box_paper b' = box_paper b" "box_full b' = box_full b"
  using assms
  by (auto simp: prepare_def bindE_Inr Let_def emit_fields updateServiceBg_fields
      checkLoadedDocument_fields createBlurCheckbox_fields
      dest: setScaledFromThumb_fields(1,2)
      split: option.splits if_splits prod.splits)

lemma prepare_radial:
  assumes "prepare ext ses b = Inr b'"
  shows "box_radial b' =
     (case document (box_paper b) of
        Some doc \<Rightarrow> if doc_loading ses doc
                    then radial_start ext (doc_progress ses doc) (box_radial b) else box_radial b
      | None \<Rightarrow> box_radial b)"
  using assms
  by (auto simp: prepare_def bindE_Inr Let_def emit_fields updateServiceBg_fields
      checkLoadedDocument_fields createBlurCheckbox_fields
      dest!: setScaledFromThumb_fields(3)
      split: option.splits if_splits prod.splits)

lemma example_prepare:
  "prepare example_ext example_session example_box = Inr example_prepared"
  by (simp add: example_prepared_def prepare_def bindE_def Let_def emit_def
      example_ext_def example_session_def example_box_def example_paper_def example_image_def
      BackgroundPreviewBox_new_def updateServiceBg_def createBlurCheckbox_def
      setScaledFromThumb_def PrepareScaledFromFull_def PrepareScaledNonPattern_def
      patternBackgroundColor_def setScaledFromImage_def checkLoadedDocument_def ReadImageAsync_start_def make_binary_guard_def
      QImage_null_def QPixmap_null_def isNull_def cpp_div_def)

lemma example_prepared_fields:
  "box_paper example_prepared = example_paper"
  "box_blur example_prepared = Some \<lparr>checked = False, disabled = True\<rparr>"
  "box_generating example_prepared = None"
  "next_flag (guards example_prepared) = 0"
  "isNull (box_full example_prepared)"
  by (simp_all add: example_prepared_def prepare_def bindE_def Let_def emit_def
      example_ext_def example_session_def example_box_def example_paper_def example_image_def
      BackgroundPreviewBox_new_def updateServiceBg_def createBlurCheckbox_def
      setScaledFromThumb_def PrepareScaledFromFull_def PrepareScaledNonPattern_def
      patternBackgroundColor_def setScaledFromImage_def checkLoadedDocument_def ReadImageAsync_start_def make_binary_guard_def
      QImage_null_def QPixmap_null_def isNull_def cpp_div_def GuardHeap_empty_def)

section \<open>Claims\<close>

subsection \<open>C1: the guarded completion of the decode\<close>

lemma decode_completion_dead:
  "\<not> guard_alive (guards b) g \<Longrightarrow> decode_completion ext g img scaled blurred b = b"
  by (simp add: decode_completion_def guard_destroy_dead)

lemma decode_completion_alive:
  assumes "guard_alive (guards b) g"
  shows "box_full (decode_completion ext g img scaled blurred b) = img"
    "box_scaled (decode_completion ext g img scaled blurred b) = pixmapFromImageInPlace scaled"
    "box_blurred (decode_completion ext g img scaled blurred b) = pixmapFromImageInPlace blurred"
  using assms
  by (simp_all add: decode_completion_def emit_fields setScaledFromImage_fields)

lemma generateCallback_supersedes:
  "\<not> guard_alive (guards (generateCallback img b)) (box_generating b)"
  by (cases "box_generating b")
     (auto simp: generateCallback_def make_binary_guard_def emit_fields guard_alive_def
        guard_destroy_def)

lemma generateCallback_guard:
  "last (effects (generateCallback img b)) =
     DecodeAsync img (patternBackgroundColor b) (box_generating (generateCallback img b))"
  by (simp add: generateCallback_def make_binary_guard_def emit_fields)

lemma generateCallback_alive:
  "box_generating b \<noteq> Some (next_flag (guards b)) \<Longrightarrow>
     guard_alive (guards (generateCallback img b)) (box_generating (generateCallback img b))"
  by (cases "box_generating b")
     (auto simp: generateCallback_def make_binary_guard_def emit_fields guard_alive_def
        guard_destroy_def)

lemma box_destroyed_kills: "\<not> guard_alive (box_destroyed b) (box_generating b)"
  by (simp add: box_destroyed_def guard_destroy_kills)

text \<open>
  C1. The completion of the decode changes the box only if its guard is alive when it
  runs: with a dead guard the state after it is the state before it; with a live guard
  the image becomes \<open>_full\<close> and the two pixmaps are set from the scaled and the blurred
  image. \<open>generateCallback\<close> hands the decode the partner of the guard it stores in
  \<open>_generating\<close>, alive at that moment (the flag it allocates being fresh). The partner of
  the guard held in \<open>_generating\<close> is dead once a newer \<open>generateCallback\<close> has assigned
  over it, and once the box is destroyed.
\<close>

theorem decode_completion_guarded:
  "(\<not> guard_alive (guards b) g \<longrightarrow> decode_completion ext g img scaled blurred b = b)
   \<and> (guard_alive (guards b) g \<longrightarrow>
        box_full (decode_completion ext g img scaled blurred b) = img
        \<and> box_scaled (decode_completion ext g img scaled blurred b)
            = pixmapFromImageInPlace scaled
        \<and> box_blurred (decode_completion ext g img scaled blurred b)
            = pixmapFromImageInPlace blurred)
   \<and> last (effects (generateCallback img b)) =
       DecodeAsync img (patternBackgroundColor b) (box_generating (generateCallback img b))
   \<and> (box_generating b \<noteq> Some (next_flag (guards b)) \<longrightarrow>
        guard_alive (guards (generateCallback img b)) (box_generating (generateCallback img b)))
   \<and> \<not> guard_alive (guards (generateCallback img' b)) (box_generating b)
   \<and> \<not> guard_alive (box_destroyed b) (box_generating b)"
  using decode_completion_dead [of b g ext img scaled blurred]
    decode_completion_alive [of b g ext img scaled blurred]
    generateCallback_supersedes [of img' b] generateCallback_guard [of img b]
    generateCallback_alive [of b img] box_destroyed_kills [of b]
  by blast

theorem decode_completion_guarded_witness:
  "box_generating (generateCallback example_image example_box) = Some 0
   \<and> box_full (decode_completion example_ext (Some 0) example_image example_image QImage_null
        (generateCallback example_image example_box)) = example_image
   \<and> decode_completion example_ext (Some 0) example_image example_image QImage_null
        (generateCallback example_image (generateCallback example_image example_box))
       = generateCallback example_image (generateCallback example_image example_box)"
proof -
  let ?b1 = "generateCallback example_image example_box"
  let ?b2 = "generateCallback example_image ?b1"
  have g1: "box_generating ?b1 = Some 0"
    by (simp add: generateCallback_def make_binary_guard_def emit_fields example_box_def
        BackgroundPreviewBox_new_def GuardHeap_empty_def)
  have alive: "guard_alive (guards ?b1) (Some 0)"
    by (simp add: generateCallback_def make_binary_guard_def emit_fields example_box_def
        BackgroundPreviewBox_new_def GuardHeap_empty_def guard_alive_def guard_destroy_def)
  have dead: "\<not> guard_alive (guards ?b2) (Some 0)"
    using decode_completion_guarded [of ?b1 _ _ _ _ _ example_image] g1 by simp
  show ?thesis
    using decode_completion_guarded [of ?b1 "Some 0" example_ext example_image example_image
        QImage_null example_image]
      decode_completion_guarded [of ?b2 "Some 0" example_ext example_image example_image
        QImage_null example_image]
      g1 alive dead
    by simp
qed

subsection \<open>C2: apply\<close>

text \<open>
  C2. \<open>apply\<close> sets the chat background to the previewed paper with the full image held at
  that moment, then sends \<open>account.installWallPaper\<close> exactly when the paper is a cloud
  wallpaper whose id differs from the id of the installed background, then closes the
  box; it does nothing else.
\<close>

theorem apply_effects:
  "effects (apply_background ext ses b) =
     effects b @ [SetChatBackground (box_paper b) (box_full b)]
       @ (if IsCloudWallPaper ext (box_paper b) \<and> paper_id (box_paper b) \<noteq> theme_background_id ses
          then [InstallWallPaper (box_paper b)] else [])
       @ [CloseBox]"
  by (simp add: apply_background_def Let_def emit_fields)

theorem apply_effects_witness:
  "effects (apply_background example_ext example_session example_box) =
     [SetChatBackground example_paper QImage_null, InstallWallPaper example_paper, CloseBox]
   \<and> effects (apply_background example_ext (example_session\<lparr>theme_background_id := 7\<rparr>) example_box) =
     [SetChatBackground example_paper QImage_null, CloseBox]"
  using apply_effects [of example_ext example_session example_box]
    apply_effects [of example_ext "example_session\<lparr>theme_background_id := 7\<rparr>" example_box]
  by (simp add: example_ext_def example_session_def example_box_def example_paper_def
      BackgroundPreviewBox_new_def)

subsection \<open>C3: share\<close>

lemma share_seen_emit: "share_seen (emit e b) \<longleftrightarrow> share_seen b \<or> share_related e"
  by (auto simp: share_seen_def emit_fields)

lemma share_seen_cong: "effects b' = effects b \<Longrightarrow> share_seen b' = share_seen b"
  by (simp add: share_seen_def)

lemma has_button_share_seen: "has_button Action_share b \<Longrightarrow> share_seen b"
proof -
  have "is_button Action_share e \<Longrightarrow> share_related e" for e
    by (cases e) auto
  then show "has_button Action_share b \<Longrightarrow> share_seen b"
    by (auto simp: has_button_def share_seen_def list_ex_iff)
qed

lemma checkLoadedDocument_share: "share_seen (checkLoadedDocument ext ses b) = share_seen b"
  by (auto simp: checkLoadedDocument_def ReadImageAsync_start_def make_binary_guard_def share_seen_emit
      intro: share_seen_cong split: option.splits)
     (simp_all add: share_seen_def)

lemma step_radial_share:
  "step_radial ext ses ms timer b = Inr b' \<Longrightarrow> share_seen b' = share_seen b"
  by (auto simp: step_radial_def Let_def checkLoadedDocument_share share_seen_emit
      split: option.splits prod.splits if_splits)
     (simp_all add: share_seen_def)

lemma paintRadial_share:
  "paintRadial ext ses ms p b = Inr (p', b') \<Longrightarrow> share_seen b' = share_seen b"
  by (auto simp: paintRadial_def bindE_Inr dest: step_radial_share split: if_splits)

lemma paintImage_share:
  "paintImage ext ms p b = Inr (p', b') \<Longrightarrow> share_seen b' = share_seen b"
  by (auto simp: paintImage_def Let_def share_seen_def checkBlurAnimationStart_fields
      split: if_splits)

lemma setScaledFromThumb_share:
  "setScaledFromThumb ext ses b = Inr (ok, b') \<Longrightarrow> share_seen b' = share_seen b"
  by (simp add: share_seen_def setScaledFromThumb_fields(6))

lemma paintEvent_share:
  assumes "paintEvent ext ses b = Inr (p, b')"
  shows "share_seen b' = share_seen b"
  using assms
  by (auto simp: paintEvent_def Let_def bindE_Inr
      dest!: paintRadial_share paintImage_share setScaledFromThumb_share
      split: if_splits prod.splits)

lemma generateCallback_share: "share_seen (generateCallback img b) = share_seen b"
  by (simp add: generateCallback_def make_binary_guard_def share_seen_emit)
     (simp add: share_seen_def)

lemma decode_completion_share:
  "share_seen (decode_completion ext g img scaled blurred b) = share_seen b"
  by (simp add: decode_completion_def Let_def share_seen_def emit_fields
      setScaledFromImage_fields)

lemma apply_background_share: "share_seen (apply_background ext ses b) = share_seen b"
  by (simp add: apply_background_def Let_def share_seen_emit)

lemma handle_event_share:
  assumes "handle_event ext ses ev b = Inr b'" "\<not> share_seen b"
  shows "\<not> share_seen b'"
proof (cases ev)
  case PaintEvent
  with assms show ?thesis
    by (auto simp: bindE_Inr dest: paintEvent_share)
next
  case (RadialTimer ms)
  with assms show ?thesis by (auto dest: step_radial_share split: if_splits)
next
  case (BlurChecked c)
  with assms show ?thesis
    by (auto simp: share_seen_def emit_fields checkBlurAnimationStart_fields
        split: option.splits)
next
  case (FadeInStep ms)
  with assms show ?thesis by (auto simp: share_seen_def emit_fields)
next
  case (ImageRead g img)
  with assms generateCallback_share [of img b] show ?thesis
    by (auto simp: Let_def share_seen_def split: if_splits)
next
  case (DecodeDone g img scaled blurred)
  with assms show ?thesis by (auto simp: decode_completion_share)
next
  case (ButtonClicked a)
  with assms has_button_share_seen [of b] show ?thesis
    by (cases a) (auto simp: share_seen_emit apply_background_share split: if_splits)
next
  case DownloaderTaskFinished
  with assms show ?thesis by (auto simp: share_seen_emit)
qed

lemma run_share:
  "run ext evs b = Inr b' \<Longrightarrow> \<not> share_seen b \<Longrightarrow> \<not> share_seen b'"
proof (induction evs arbitrary: b)
  case Nil
  then show ?case by simp
next
  case (Cons sev evs)
  obtain ses ev where sev: "sev = (ses, ev)" by (cases sev)
  from Cons.prems(1) obtain b1 where
    b1: "handle_event ext ses ev b = Inr b1" "run ext evs b1 = Inr b'"
    by (auto simp: sev bindE_Inr)
  show ?case
    using Cons.IH [OF b1(2) handle_event_share [OF b1(1) Cons.prems(2)]] .
qed

lemma prepare_share:
  assumes "prepare ext ses b = Inr b'"
  shows "share_seen b' \<longleftrightarrow> share_seen b \<or> hasShareUrl (box_paper b)"
    and "has_button Action_share b' \<longleftrightarrow> has_button Action_share b \<or> hasShareUrl (box_paper b)"
proof -
  from assms obtain ok b9 where
    b9: "effects b9 = effects b @ [SetTitle lng_background_header,
            AddButton lng_background_apply Action_apply, AddButton lng_cancel Action_closeBox]
          @ (if hasShareUrl (box_paper b)
             then [AddLeftButton lng_background_share Action_share] else [])
          @ [LoadThumbnail, LoadDocument]"
    and b': "b' = emit (SetDimensions (st_boxWideWidth ext) (st_boxWideWidth ext))
                    (checkLoadedDocument ext ses b9)"
    by (auto simp: prepare_def bindE_Inr Let_def emit_fields updateServiceBg_fields
        createBlurCheckbox_fields dest!: setScaledFromThumb_fields(6)
        split: option.splits if_splits prod.splits)
  have "share_seen b9 \<longleftrightarrow> share_seen b \<or> hasShareUrl (box_paper b)"
    by (simp add: share_seen_def b9)
  then show "share_seen b' \<longleftrightarrow> share_seen b \<or> hasShareUrl (box_paper b)"
    by (simp add: b' share_seen_emit checkLoadedDocument_share)
  have "has_button Action_share b9 \<longleftrightarrow> has_button Action_share b \<or> hasShareUrl (box_paper b)"
    by (simp add: has_button_def b9)
  moreover have "has_button Action_share (checkLoadedDocument ext ses b9)
      = has_button Action_share b9"
    by (auto simp: has_button_def checkLoadedDocument_def ReadImageAsync_start_def make_binary_guard_def emit_fields
        split: option.splits)
  ultimately show
    "has_button Action_share b' \<longleftrightarrow> has_button Action_share b \<or> hasShareUrl (box_paper b)"
    by (simp add: b' has_button_def emit_fields)
qed

text \<open>
  C3. \<open>share\<close> copies the paper's share URL to the clipboard and shows the link-copied
  toast, and nothing else. A box prepared for a paper has a button that shares exactly
  when the paper has a share URL; for a paper without one, no run of the box ever
  copies a link.
\<close>

theorem share_effects:
  "effects (share b) =
     effects b @ [ClipboardSetText (shareUrl (box_paper b)), ToastShow lng_background_link_copied]
   \<and> (prepare ext ses (BackgroundPreviewBox_new paper h) = Inr b0
        \<longrightarrow> (has_button Action_share b0 \<longleftrightarrow> hasShareUrl paper)
          \<and> (\<not> hasShareUrl paper \<longrightarrow> run ext evs b0 = Inr b' \<longrightarrow> \<not> share_seen b'))"
proof -
  have new: "\<not> share_seen (BackgroundPreviewBox_new paper h)"
    "\<not> has_button Action_share (BackgroundPreviewBox_new paper h)"
    "box_paper (BackgroundPreviewBox_new paper h) = paper"
    by (simp_all add: share_seen_def has_button_def BackgroundPreviewBox_new_def)
  show ?thesis
    using prepare_share [of ext ses "BackgroundPreviewBox_new paper h" b0] new
      run_share [of ext evs b0 b']
    by (auto simp: share_def emit_fields)
qed

theorem share_effects_witness:
  "effects (share example_box) =
     [ClipboardSetText (fromLatin1 ''https://t.me/bg/abc''), ToastShow lng_background_link_copied]
   \<and> prepare example_ext example_session (BackgroundPreviewBox_new example_paper GuardHeap_empty)
       = Inr example_prepared
   \<and> has_button Action_share example_prepared"
  using share_effects [of example_box example_ext example_session example_paper GuardHeap_empty
      example_prepared "[]" example_prepared]
    example_prepare
  by (simp add: example_box_def BackgroundPreviewBox_new_def example_paper_def)

subsection \<open>C4: toggling the blur\<close>

text \<open>
  C4. When the checkbox exists, its state differs from the paper's blur flag, the blurred
  pixmap is not null and no fade-in runs, \<open>checkBlurAnimationStart\<close> replaces the paper by
  \<open>withBlurred\<close> of the checkbox's state and starts the fade-in from the pixmap that was
  shown (given that \<open>withBlurred\<close> sets the flag it is asked to set); in every other case
  it changes nothing.
\<close>

theorem checkBlurAnimationStart_toggles:
  "(box_blur b = Some blur \<and> checked blur \<noteq> isBlurred (box_paper b)
      \<and> \<not> pixmap_isNull (box_blurred b) \<and> \<not> animating (box_fadeIn b)
      \<and> isBlurred (withBlurred ext (box_paper b) (checked blur)) = checked blur
    \<longrightarrow> checkBlurAnimationStart ext b =
          b\<lparr>box_paper := withBlurred ext (box_paper b) (checked blur),
            box_fadeOutThumbnail := shown_pixmap b,
            box_fadeIn := fade_start ext 0 1 (duration (st_backgroundCheck ext)) (box_fadeIn b)\<rparr>)
   \<and> (\<not> (\<exists>blur. box_blur b = Some blur \<and> checked blur \<noteq> isBlurred (box_paper b)
            \<and> \<not> pixmap_isNull (box_blurred b) \<and> \<not> animating (box_fadeIn b))
    \<longrightarrow> checkBlurAnimationStart ext b = b)"
  by (auto simp: checkBlurAnimationStart_def Let_def startFadeInFrom_def shown_pixmap_def
      split: option.splits)

theorem checkBlurAnimationStart_toggles_witness:
  "isBlurred (box_paper (checkBlurAnimationStart example_ext example_blur_box))
   \<and> box_fadeOutThumbnail (checkBlurAnimationStart example_ext example_blur_box)
       = box_scaled example_blur_box
   \<and> animating (box_fadeIn (checkBlurAnimationStart example_ext example_blur_box))
   \<and> checkBlurAnimationStart example_ext example_box = example_box"
  using checkBlurAnimationStart_toggles [of example_blur_box "\<lparr>checked = True, disabled = False\<rparr>"
      example_ext]
    checkBlurAnimationStart_toggles [of example_box _ example_ext]
  by (simp add: example_blur_box_def example_box_def BackgroundPreviewBox_new_def
      example_ext_def example_paper_def example_image_def shown_pixmap_def pixmap_isNull_def
      isNull_def QPixmap_null_def QImage_null_def)

subsection \<open>C5: the radial indicator\<close>

lemma step_radial_update:
  "step_radial ext ses ms timer b = Inr b' \<Longrightarrow>
     \<exists>doc. document (box_paper b) = Some doc
       \<and> box_radial b' =
           snd (radial_update ext (doc_progress ses doc) (\<not> doc_loading ses doc) ms (box_radial b))"
  by (auto simp: step_radial_def Let_def emit_fields checkLoadedDocument_fields
      split: option.splits prod.splits if_splits)

lemma step_radial_returns:
  "document (box_paper b) \<noteq> None \<Longrightarrow> \<exists>b'. step_radial ext ses ms timer b = Inr b'"
  by (auto simp: step_radial_def Let_def split: option.splits prod.splits)

lemma paintRadial_idle:
  "\<not> radial_animating (box_radial b) \<Longrightarrow> paintRadial ext ses ms p b = Inr (p, b)"
  by (simp add: paintRadial_def bindE_def)

lemma paintRadial_stopped:
  "paintRadial ext ses ms p b = Inr (p', b') \<Longrightarrow> \<not> radial_animating (box_radial b') \<Longrightarrow> p' = p"
  by (auto simp: paintRadial_def bindE_Inr split: if_splits)

lemma prepare_returns:
  assumes "isPattern (box_paper b) \<Longrightarrow> document (box_paper b) \<noteq> None"
  shows "\<exists>b'. prepare ext ses b = Inr b'"
proof -
  have "\<exists>r. setScaledFromThumb ext ses b1 = Inr r" if "box_paper b1 = box_paper b" for b1
    using assms that
    by (auto simp: setScaledFromThumb_def PrepareScaledFromFull_def patternBackgroundColor_def
        bindE_def Let_def split: option.splits)
  then show ?thesis
    by (auto simp: prepare_def Let_def bindE_Inr emit_fields updateServiceBg_fields
        createBlurCheckbox_fields split: prod.splits option.splits)
qed

text \<open>
  C5. \<open>prepare\<close> starts the radial animation at the document's progress exactly when the
  paper has a document that is loading, and otherwise leaves it as it was; it returns
  for every paper that is no pattern or has a document. \<open>step_radial\<close> returns whenever
  the paper has a document, and updates the radial with the document's progress,
  finished exactly when the document is not loading. \<open>paintRadial\<close> paints nothing when
  the radial is not animating, before or after its step.
\<close>

theorem radial_tracks_document:
  "(prepare ext ses b = Inr b1 \<longrightarrow>
      box_radial b1 =
        (case document (box_paper b) of
           Some doc \<Rightarrow>
             if doc_loading ses doc
             then radial_start ext (doc_progress ses doc) (box_radial b) else box_radial b
         | None \<Rightarrow> box_radial b))
   \<and> ((isPattern (box_paper b) \<longrightarrow> document (box_paper b) \<noteq> None)
        \<longrightarrow> (\<exists>b1. prepare ext ses b = Inr b1))
   \<and> (document (box_paper b) = Some doc \<longrightarrow>
        (\<exists>b2. step_radial ext ses ms timer b = Inr b2
           \<and> box_radial b2 =
               snd (radial_update ext (doc_progress ses doc) (\<not> doc_loading ses doc) ms
                      (box_radial b))))
   \<and> (\<not> radial_animating (box_radial b) \<longrightarrow> paintRadial ext ses ms p b = Inr (p, b))
   \<and> (paintRadial ext ses ms p b = Inr (p', b3) \<and> \<not> radial_animating (box_radial b3)
        \<longrightarrow> p' = p)"
proof -
  have "\<exists>b2. step_radial ext ses ms timer b = Inr b2
           \<and> box_radial b2 =
               snd (radial_update ext (doc_progress ses doc) (\<not> doc_loading ses doc) ms
                      (box_radial b))"
    if "document (box_paper b) = Some doc"
    using step_radial_returns [of b ext ses ms timer] step_radial_update [of ext ses ms timer b]
      that by auto
  then show ?thesis
    using prepare_radial [of ext ses b b1] prepare_returns [of b ext ses]
      paintRadial_idle [of b ext ses ms p] paintRadial_stopped [of ext ses ms p b p' b3]
    by blast
qed

theorem radial_tracks_document_witness:
  "prepare example_ext example_session example_box = Inr example_prepared
   \<and> box_radial example_prepared =
       \<lparr>radial_animating = True, radial_opacity = 0, radial_arc = 1 / 4,
        radial_finished = False\<rparr>
   \<and> paintRadial example_ext example_session 1000 [] example_box = Inr ([], example_box)"
  using radial_tracks_document [of example_ext example_session example_box example_prepared
      1 1000 False "[]" "[]" example_box]
    example_prepare
  by (simp add: example_box_def BackgroundPreviewBox_new_def example_paper_def
      example_ext_def example_session_def)

subsection \<open>C6: the precondition of step_radial\<close>

lemma ColorizePattern_error:
  "ColorizePattern ext img c = Inl e \<Longrightarrow>
     e \<in> {Assert_ColorizePattern_resultIntsAdded, Assert_ColorizePattern_resultDepth,
          Assert_ColorizePattern_resultBytesPerLine, Assert_ColorizePattern_maskBytesAdded,
          Assert_ColorizePattern_maskDepth}"
  by (auto simp: ColorizePattern_def Let_def split: if_splits)

lemma setScaledFromThumb_error:
  "setScaledFromThumb ext ses b = Inl e \<Longrightarrow>
     e \<noteq> Expects_step_radial_document \<and> e \<noteq> Expects_paintImage_scaled"
  by (auto simp: setScaledFromThumb_def PrepareScaledFromFull_def bindE_def Let_def
      dest!: ColorizePattern_error split: option.splits if_splits sum.splits)

lemma paintImage_error:
  "paintImage ext ms p b = Inl e \<Longrightarrow> e = Expects_paintImage_scaled"
  by (auto simp: paintImage_def Let_def split: if_splits)

lemma step_radial_ok:
  "document (box_paper b) \<noteq> None \<Longrightarrow> \<exists>b'. step_radial ext ses ms timer b = Inr b'"
  by (auto simp: step_radial_def Let_def split: option.splits prod.splits)

lemma step_radial_error:
  "step_radial ext ses ms timer b = Inl e \<Longrightarrow> document (box_paper b) = None"
  by (auto simp: step_radial_def Let_def split: option.splits prod.splits)

lemma step_radial_keeps:
  "step_radial ext ses ms timer b = Inr b' \<Longrightarrow> radial_has_document b'"
  by (auto simp: radial_has_document_def step_radial_def Let_def checkLoadedDocument_fields
      emit_fields split: option.splits prod.splits if_splits)

lemma paintRadial_keeps:
  assumes "radial_has_document b"
  shows "paintRadial ext ses ms p b \<noteq> Inl e"
    and "paintRadial ext ses ms p b = Inr (p', b') \<Longrightarrow> radial_has_document b'"
proof -
  show "paintRadial ext ses ms p b \<noteq> Inl e"
    using assms step_radial_ok [of b ext ses ms False]
    by (auto simp: paintRadial_def bindE_def radial_has_document_def split: if_splits sum.splits)
  show "radial_has_document b'" if "paintRadial ext ses ms p b = Inr (p', b')"
    using that assms
    by (auto simp: paintRadial_def bindE_def dest: step_radial_keeps
        split: if_splits sum.splits)
qed

lemma checkBlurAnimationStart_keeps:
  assumes "\<forall>paper c. document (withBlurred ext paper c) = document paper"
  shows "document (box_paper (checkBlurAnimationStart ext b)) = document (box_paper b)"
  using assms
  by (auto simp: checkBlurAnimationStart_def Let_def startFadeInFrom_fields
      split: option.splits)

lemma radial_has_document_cong:
  "box_radial b' = box_radial b \<Longrightarrow> document (box_paper b') = document (box_paper b)
     \<Longrightarrow> radial_has_document b' = radial_has_document b"
  by (simp add: radial_has_document_def)

lemma paintImage_keeps:
  assumes "\<forall>paper c. document (withBlurred ext paper c) = document paper"
    and "paintImage ext ms p b = Inr (p', b')"
  shows "radial_has_document b' = radial_has_document b"
  using paintImage_fields(3,4) [OF assms(2)] checkBlurAnimationStart_keeps [OF assms(1), of b]
  by (simp add: radial_has_document_def)

lemma setScaledFromThumb_keeps:
  assumes "setScaledFromThumb ext ses b = Inr (ok, b')"
  shows "radial_has_document b' = radial_has_document b"
  using setScaledFromThumb_fields(1,3) [OF assms]
  by (simp add: radial_has_document_def)

lemma paintEvent_keeps:
  assumes wb: "\<forall>paper c. document (withBlurred ext paper c) = document paper"
    and inv: "radial_has_document b"
  shows "paintEvent ext ses b \<noteq> Inl Expects_step_radial_document"
    and "paintEvent ext ses b = Inr (p, b') \<Longrightarrow> radial_has_document b'"
proof -
  have thumb: "radial_has_document b1"
    if "setScaledFromThumb ext ses b = Inr (drawn, b1)" for drawn b1
    using setScaledFromThumb_keeps [OF that] inv by simp
  have img: "radial_has_document b2"
    if "paintImage ext ms q b1 = Inr (q', b2)" "radial_has_document b1" for ms q q' b1 b2
    using that paintImage_keeps [OF wb that(1)] by simp
  show "paintEvent ext ses b \<noteq> Inl Expects_step_radial_document"
  proof
    assume "paintEvent ext ses b = Inl Expects_step_radial_document"
    then show False
      using inv
      by (auto simp: paintEvent_def Let_def bindE_Inl
          dest!: setScaledFromThumb_error paintImage_error
          dest: paintRadial_keeps(1) thumb img
          split: if_splits prod.splits)
  qed
  show "radial_has_document b'" if "paintEvent ext ses b = Inr (p, b')"
    using that inv
    by (auto simp: paintEvent_def Let_def bindE_Inr
        dest: paintRadial_keeps(2) thumb img
        split: if_splits prod.splits)
qed

lemma handle_event_keeps:
  assumes wb: "\<forall>paper c. document (withBlurred ext paper c) = document paper"
    and inv: "radial_has_document b"
  shows "handle_event ext ses ev b \<noteq> Inl Expects_step_radial_document"
    and "handle_event ext ses ev b = Inr b' \<Longrightarrow> radial_has_document b'"
proof -
  have doc: "document (box_paper b) \<noteq> None" if "radial_animating (box_radial b)"
    using inv that by (simp add: radial_has_document_def)
  show "handle_event ext ses ev b \<noteq> Inl Expects_step_radial_document"
  proof (cases ev)
    case PaintEvent
    then show ?thesis
      using paintEvent_keeps(1) [OF wb inv, of ses]
      by (auto simp: bindE_Inl split: prod.splits)
  next
    case (RadialTimer ms)
    then show ?thesis
      using doc by (auto dest: step_radial_error)
  next
    case (ButtonClicked a)
    then show ?thesis by (cases a) auto
  qed (auto simp: Let_def split: option.splits)
  show "radial_has_document b'" if "handle_event ext ses ev b = Inr b'"
  proof (cases ev)
    case PaintEvent
    with that show ?thesis
      using paintEvent_keeps(2) [OF wb inv]
      by (auto simp: bindE_Inr split: prod.splits)
  next
    case (RadialTimer ms)
    with that inv show ?thesis
      by (auto dest: step_radial_keeps split: if_splits)
  next
    case (BlurChecked c)
    with that inv show ?thesis
      using checkBlurAnimationStart_keeps [OF wb]
      by (auto simp: radial_has_document_def emit_fields checkBlurAnimationStart_fields
          split: option.splits)
  next
    case (FadeInStep ms)
    with that inv show ?thesis by (auto simp: radial_has_document_def emit_fields)
  next
    case (ImageRead g img)
    with that inv show ?thesis
      by (auto simp: radial_has_document_def Let_def generateCallback_fields split: if_splits)
  next
    case (DecodeDone g img scaled blurred)
    with that inv show ?thesis
      by (auto simp: radial_has_document_def decode_completion_fields)
  next
    case (ButtonClicked a)
    with that inv show ?thesis
      by (cases a)
         (auto simp: radial_has_document_def emit_fields apply_background_fields share_fields
            split: if_splits)
  next
    case DownloaderTaskFinished
    with that inv show ?thesis by (auto simp: radial_has_document_def emit_fields)
  qed
qed

lemma run_keeps:
  assumes wb: "\<forall>paper c. document (withBlurred ext paper c) = document paper"
  shows "radial_has_document b \<Longrightarrow> run ext evs b \<noteq> Inl Expects_step_radial_document"
proof (induction evs arbitrary: b)
  case Nil
  then show ?case by simp
next
  case (Cons sev evs)
  obtain ses ev where sev: "sev = (ses, ev)" by (cases sev)
  show ?case
  proof (cases "handle_event ext ses ev b")
    case (Inl e)
    then show ?thesis
      using handle_event_keeps(1) [OF wb Cons.prems, of ses ev]
      by (simp add: sev bindE_def)
  next
    case (Inr b1)
    then show ?thesis
      using Cons.IH [OF handle_event_keeps(2) [OF wb Cons.prems Inr]]
      by (simp add: sev bindE_def)
  qed
qed

lemma prepare_establishes:
  assumes "prepare ext ses b = Inr b'" "\<not> radial_animating (box_radial b)"
  shows "radial_has_document b'"
  using prepare_radial [OF assms(1)] prepare_fields(1) [OF assms(1)] assms(2)
  by (auto simp: radial_has_document_def split: option.splits if_splits)

text \<open>
  C6. If \<open>withBlurred\<close> keeps the document of a paper, then in no run of a box prepared
  from its constructor does \<open>step_radial\<close> find \<open>_paper.document()\<close> null: its \<open>Expects\<close>
  never fires, whether the step comes from the animation timer or from \<open>paintRadial\<close>.
\<close>

theorem step_radial_precondition:
  assumes "\<forall>paper c. document (withBlurred ext paper c) = document paper"
    and "prepare ext ses (BackgroundPreviewBox_new paper h) = Inr b0"
  shows "run ext evs b0 \<noteq> Inl Expects_step_radial_document"
proof -
  have "radial_has_document b0"
    using prepare_establishes [OF assms(2)] by (simp add: BackgroundPreviewBox_new_def)
  then show ?thesis by (rule run_keeps [OF assms(1)])
qed

theorem step_radial_precondition_witness:
  "(\<forall>paper c. document (withBlurred example_ext paper c) = document paper)
   \<and> prepare example_ext example_session (BackgroundPreviewBox_new example_paper GuardHeap_empty)
       = Inr example_prepared
   \<and> run example_ext [(example_session, PaintEvent), (example_session, RadialTimer 1010)]
        example_prepared \<noteq> Inl Expects_step_radial_document"
proof -
  have wb: "\<forall>paper c. document (withBlurred example_ext paper c) = document paper"
    by (simp add: example_ext_def)
  have prep: "prepare example_ext example_session
      (BackgroundPreviewBox_new example_paper GuardHeap_empty) = Inr example_prepared"
    using example_prepare by (simp add: example_box_def)
  show ?thesis
    using step_radial_precondition [OF wb prep] wb prep by blast
qed

subsection \<open>C7: the blur checkbox\<close>

lemma setScaledFromImage_enables:
  "blur_enabled (setScaledFromImage ext i j b) \<longleftrightarrow>
     blur_enabled b \<or> (box_blur b \<noteq> None \<and> (document (box_paper b) = None \<or> \<not> isNull (box_full b)))"
  by (auto simp: blur_enabled_def setScaledFromImage_blur split: option.splits)

lemma setScaledFromThumb_enables:
  assumes "setScaledFromThumb ext ses b = Inr (ok, b')" "blur_enabled b'" "\<not> blur_enabled b"
  shows "document (box_paper b) = None \<or> \<not> isNull (box_full b)"
  using assms
  by (auto simp: setScaledFromThumb_def bindE_def Let_def setScaledFromImage_enables
      split: option.splits if_splits sum.splits)

lemma setScaledFromThumb_blur_exists:
  assumes "setScaledFromThumb ext ses b = Inr (ok, b')"
  shows "box_blur b' = None \<longleftrightarrow> box_blur b = None"
  using assms
  by (auto simp: setScaledFromThumb_def bindE_def Let_def setScaledFromImage_blur
      split: option.splits if_splits sum.splits)

lemma paintEvent_enables:
  assumes "paintEvent ext ses b = Inr (p, b')" "blur_enabled b'" "\<not> blur_enabled b"
  shows "document (box_paper b) = None \<or> \<not> isNull (box_full b')"
proof -
  have thumb: "document (box_paper b) = None \<or> \<not> isNull (box_full b)"
    if "setScaledFromThumb ext ses b = Inr (ok, b1)" "box_blur b' = box_blur b1" for ok b1
    using setScaledFromThumb_enables [OF that(1)] assms(2,3) that(2)
    by (simp add: blur_enabled_def)
  have full: "box_full b' = box_full b"
    using assms(1)
    by (auto simp: paintEvent_def Let_def bindE_def paintTexts_def
        dest!: paintRadial_fields(2) paintImage_fields(1) setScaledFromThumb_fields(2)
        split: if_splits sum.splits prod.splits)
  have "document (box_paper b) = None \<or> \<not> isNull (box_full b)"
    using assms thumb
    by (auto simp: paintEvent_def Let_def bindE_def paintTexts_def blur_enabled_def
        dest!: paintRadial_fields(3) paintImage_fields(2)
        split: if_splits sum.splits prod.splits)
  with full show ?thesis by simp
qed

lemma decode_completion_enables:
  assumes "blur_enabled (decode_completion ext g img scaled blurred b)" "\<not> blur_enabled b"
  shows "document (box_paper b) = None
     \<or> \<not> isNull (box_full (decode_completion ext g img scaled blurred b))"
  using assms
  by (auto simp: decode_completion_def Let_def blur_enabled_def emit_fields
      setScaledFromImage_blur setScaledFromImage_fields split: if_splits option.splits)

lemma handle_event_enables:
  assumes "handle_event ext ses ev b = Inr b'" "blur_enabled b'" "\<not> blur_enabled b"
  shows "document (box_paper b) = None \<or> \<not> isNull (box_full b')"
proof (cases ev)
  case PaintEvent
  with assms show ?thesis
    by (auto simp: bindE_def split: sum.splits dest: paintEvent_enables)
next
  case (RadialTimer ms)
  with assms show ?thesis
    by (auto simp: blur_enabled_def dest: step_radial_fields(3) split: if_splits)
next
  case (BlurChecked c)
  with assms show ?thesis
    by (auto simp: blur_enabled_def emit_fields checkBlurAnimationStart_fields
        split: option.splits)
next
  case (FadeInStep ms)
  with assms show ?thesis by (auto simp: blur_enabled_def emit_fields)
next
  case (ImageRead g img)
  with assms show ?thesis
    by (auto simp: blur_enabled_def Let_def generateCallback_fields split: if_splits)
next
  case (DecodeDone g img scaled blurred)
  with assms show ?thesis by (auto dest: decode_completion_enables)
next
  case (ButtonClicked a)
  with assms show ?thesis
    by (cases a)
       (auto simp: blur_enabled_def emit_fields apply_background_fields share_fields
          split: if_splits)
next
  case DownloaderTaskFinished
  with assms show ?thesis by (auto simp: blur_enabled_def emit_fields)
qed

lemma prepare_blur:
  assumes "prepare ext ses b = Inr b'" "box_blur b = None"
  shows "box_blur b' \<noteq> None \<longleftrightarrow> thumbnail (box_paper b) \<noteq> None \<and> \<not> isPattern (box_paper b)"
  using assms
  by (auto simp: prepare_def bindE_def Let_def emit_fields updateServiceBg_fields
      checkLoadedDocument_fields createBlurCheckbox_fields
      dest!: setScaledFromThumb_blur_exists
      split: sum.splits option.splits if_splits prod.splits)

lemma prepare_enables:
  assumes "prepare ext ses b = Inr b'" "blur_enabled b'" "box_blur b = None"
  shows "document (box_paper b) = None \<or> \<not> isNull (box_full b)"
  using assms
  apply (auto simp: prepare_def bindE_def Let_def emit_fields updateServiceBg_fields
      checkLoadedDocument_fields createBlurCheckbox_fields
      split: sum.splits prod.splits if_splits)
  apply (auto dest!: setScaledFromThumb_enables
      simp: blur_enabled_def checkLoadedDocument_fields emit_fields updateServiceBg_fields createBlurCheckbox_fields
      split: option.splits if_splits)
  done

text \<open>
  C7. \<open>createBlurCheckbox\<close> leaves the checkbox disabled; \<open>prepare\<close> creates the checkbox
  exactly for a paper with a thumbnail that is no pattern; \<open>setScaledFromImage\<close> enables
  an existing checkbox exactly when the paper has no document or the full image is
  there; and whenever \<open>prepare\<close> or an event of the box's life turns the checkbox from
  disabled to enabled, the paper has no document or the full image is there.
\<close>

theorem blur_checkbox_enabling:
  "box_blur (createBlurCheckbox b) = Some \<lparr>checked = isBlurred (box_paper b), disabled = True\<rparr>
   \<and> (prepare ext ses (BackgroundPreviewBox_new paper h) = Inr b0
        \<longrightarrow> (box_blur b0 \<noteq> None \<longleftrightarrow> thumbnail paper \<noteq> None \<and> \<not> isPattern paper)
          \<and> (blur_enabled b0 \<longrightarrow> document paper = None))
   \<and> (blur_enabled (setScaledFromImage ext img blurred b) \<longleftrightarrow>
        blur_enabled b
        \<or> (box_blur b \<noteq> None \<and> (document (box_paper b) = None \<or> \<not> isNull (box_full b))))
   \<and> (handle_event ext ses ev b = Inr b' \<and> \<not> blur_enabled b \<and> blur_enabled b'
        \<longrightarrow> document (box_paper b) = None \<or> \<not> isNull (box_full b'))"
proof -
  have new: "box_blur (BackgroundPreviewBox_new paper h) = None"
    "box_paper (BackgroundPreviewBox_new paper h) = paper"
    "isNull (box_full (BackgroundPreviewBox_new paper h))"
    by (simp_all add: BackgroundPreviewBox_new_def QImage_null_def isNull_def)
  have "box_blur b0 \<noteq> None \<longleftrightarrow> thumbnail paper \<noteq> None \<and> \<not> isPattern paper"
    if "prepare ext ses (BackgroundPreviewBox_new paper h) = Inr b0"
    using prepare_blur [OF that new(1)] by (simp add: new)
  moreover have "document paper = None"
    if "prepare ext ses (BackgroundPreviewBox_new paper h) = Inr b0" "blur_enabled b0"
    using prepare_enables [OF that new(1)] by (simp add: new)
  ultimately show ?thesis
    using handle_event_enables [of ext ses ev b b']
    by (simp add: createBlurCheckbox_fields setScaledFromImage_enables)
qed

theorem blur_checkbox_enabling_witness:
  "box_blur example_prepared = Some \<lparr>checked = False, disabled = True\<rparr>
   \<and> blur_enabled
        (decode_completion example_ext (Some 0) example_image example_image example_image
           (generateCallback example_image example_prepared))
   \<and> \<not> isNull (box_full
        (decode_completion example_ext (Some 0) example_image example_image example_image
           (generateCallback example_image example_prepared)))"
proof -
  let ?b = "generateCallback example_image example_prepared"
  let ?ev = "DecodeDone (Some 0) example_image example_image example_image"
  let ?b' = "decode_completion example_ext (Some 0) example_image example_image example_image ?b"
  have prep: "prepare example_ext example_session
      (BackgroundPreviewBox_new example_paper GuardHeap_empty) = Inr example_prepared"
    using example_prepare by (simp add: example_box_def)
  have blur: "box_blur example_prepared = Some \<lparr>checked = False, disabled = True\<rparr>"
    by (rule example_prepared_fields)
  have gen: "box_generating example_prepared = None" "next_flag (guards example_prepared) = 0"
    by (rule example_prepared_fields)+
  have alive: "guard_alive (guards ?b) (Some 0)"
    by (simp add: generateCallback_def make_binary_guard_def emit_fields guard_alive_def
        guard_destroy_def gen)
  have before: "\<not> blur_enabled ?b"
    by (simp add: blur_enabled_def generateCallback_fields blur)
  have after: "blur_enabled ?b'"
    using alive
    by (simp add: blur_enabled_def decode_completion_def emit_fields setScaledFromImage_blur
        generateCallback_fields blur example_image_def isNull_def)
  have ev: "handle_event example_ext example_session ?ev ?b = Inr ?b'" by simp
  have doc: "document (box_paper ?b) \<noteq> None"
    by (simp add: generateCallback_fields example_prepared_fields example_paper_def)
  show ?thesis
    using blur_checkbox_enabling [where b = ?b and ext = example_ext and ses = example_session
        and paper = example_paper and h = GuardHeap_empty and ?b0.0 = example_prepared
        and ev = ?ev and b' = ?b']
      blur after before ev doc
    by simp
qed

subsection \<open>C8: the frame index\<close>

lemma int32_id: "- (2 ^ 31) \<le> x \<Longrightarrow> x < 2 ^ 31 \<Longrightarrow> int32 x = x"
  by (simp add: int32_def)

lemma bit_length_le: "n < 2 ^ m \<Longrightarrow> bit_length n \<le> m"
proof (induction m arbitrary: n)
  case 0
  then show ?case by (simp add: bit_length.simps)
next
  case (Suc m)
  show ?case
  proof (cases "n = 0")
    case True
    then show ?thesis by (simp add: bit_length.simps)
  next
    case False
    have "n div 2 < 2 ^ m" using Suc.prems by auto
    then have "bit_length (n div 2) \<le> m" by (rule Suc.IH)
    then show ?thesis using False by (subst bit_length.simps) simp
  qed
qed

lemma bit_length_shift: "0 < n \<Longrightarrow> bit_length (n * 2 ^ j) = bit_length n + j"
proof (induction j)
  case 0
  then show ?case by simp
next
  case (Suc j)
  have "bit_length (n * 2 ^ Suc j) = Suc (bit_length ((n * 2 ^ Suc j) div 2))"
    using Suc.prems by (subst bit_length.simps) simp
  also have "(n * 2 ^ Suc j) div 2 = n * 2 ^ j" by simp
  finally show ?case using Suc by simp
qed

lemma float_round_bounds:
  assumes "0 \<le> x" "x \<le> of_int c" "c < 2 ^ k" "k \<le> p"
  shows "0 \<le> float_round p E x" "float_round p E x \<le> of_int c"
proof -
  define a where "a = \<bar>x\<bar> * 2 ^ E"
  define s where "s = bit_length (nat \<lfloor>a\<rfloor>) - p"
  define y where "y = a / 2 ^ s"
  define q where "q = \<lfloor>y\<rfloor>"
  define q' where
    "q' = (if y - of_int q > 1 / 2 \<or> (y - of_int q = 1 / 2 \<and> odd q) then q + 1 else q)"
  have r: "float_round p E x = sgn x * (of_int q' * 2 ^ s / 2 ^ E)"
    by (simp add: float_round_def Let_def a_def s_def y_def q_def q'_def)
  have a0: "0 \<le> a" by (simp add: a_def)
  have y0: "0 \<le> y" using a0 by (simp add: y_def)
  have q0: "0 \<le> q" using y0 by (simp add: q_def)
  have q'0: "0 \<le> q'" using q0 by (simp add: q'_def)
  have sg: "0 \<le> sgn x" using assms(1) by (simp add: sgn_if)
  show "0 \<le> float_round p E x"
    unfolding r using sg q'0 by (intro mult_nonneg_nonneg divide_nonneg_nonneg) simp_all
  have c0: "0 \<le> c" using assms(1,2) by linarith
  have ac: "a \<le> of_int c * 2 ^ E"
    using assms(1,2) by (simp add: a_def)
  have "real_of_int c < 2 ^ k"
    using assms(3) by (metis of_int_less_iff of_int_numeral of_int_power)
  then have "real_of_int c * 2 ^ E < 2 ^ k * 2 ^ E"
    by (rule mult_strict_right_mono) simp
  with ac have "a < 2 ^ k * 2 ^ E" by (rule le_less_trans)
  then have "a < 2 ^ (k + E)" by (simp only: power_add)
  then have "\<lfloor>a\<rfloor> < 2 ^ (k + E)" by (simp add: floor_less_iff)
  then have "nat \<lfloor>a\<rfloor> < 2 ^ (k + E)" using a0 by (simp add: nat_less_iff)
  then have "bit_length (nat \<lfloor>a\<rfloor>) \<le> k + E" by (rule bit_length_le)
  then have s: "s \<le> E" using assms(4) by (simp add: s_def)
  define N where "N = c * 2 ^ (E - s)"
  have pow: "(2::real) ^ E = 2 ^ (E - s) * 2 ^ s"
    using s by (simp add: power_add [symmetric])
  have N: "real_of_int N * 2 ^ s = of_int c * 2 ^ E"
    by (simp add: N_def pow)
  have "y * 2 ^ s = a" by (simp add: y_def)
  with ac N have "y * 2 ^ s \<le> of_int N * 2 ^ s" by simp
  then have yN: "y \<le> of_int N" by simp
  then have qN: "q \<le> N" unfolding q_def by (simp add: floor_le_iff)
  have "q' \<le> N"
  proof (cases "q < N")
    case True
    then show ?thesis by (simp add: q'_def)
  next
    case False
    then have "q = N" using qN by simp
    then have "y \<le> of_int q" using yN by simp
    moreover have "of_int q \<le> y" by (simp add: q_def)
    ultimately have "y - of_int q = 0" by simp
    then show ?thesis using \<open>q = N\<close> by (simp add: q'_def)
  qed
  then have "real_of_int q' * 2 ^ s \<le> of_int N * 2 ^ s" by simp
  then have "real_of_int q' * 2 ^ s \<le> of_int c * 2 ^ E" by (simp only: N)
  then have le: "real_of_int q' * 2 ^ s / 2 ^ E \<le> of_int c"
    by (simp add: pos_divide_le_eq)
  show "float_round p E x \<le> of_int c"
  proof (cases "x = 0")
    case True
    then have "sgn x = 0" by simp
    then show ?thesis using c0 unfolding r by simp
  next
    case False
    then have "sgn x = 1" using assms(1) by (simp add: sgn_if)
    then show ?thesis using le unfolding r by simp
  qed
qed

lemma float64_round_bounds:
  assumes "0 \<le> x" "x \<le> of_int c" "c < 2 ^ 31"
  shows "0 \<le> float64_round x" "float64_round x \<le> of_int c"
  unfolding float64_round_def
  by (rule float_round_bounds [OF assms, of 53 1074], simp)+

text \<open>The rounding of a positive dyadic number, on integers.\<close>

lemma float_round_dyadic:
  fixes p :: nat
  assumes "0 < M" "d \<le> E"
  defines "t \<equiv> bit_length (nat M) - p"
  defines "q \<equiv> M div 2 ^ t" and "r \<equiv> M mod 2 ^ t"
  shows "float_round p E (of_int M / 2 ^ d) =
     of_int (if 2 * r > 2 ^ t \<or> (2 * r = 2 ^ t \<and> odd q) then q + 1 else q) * 2 ^ t / 2 ^ d"
proof -
  define x :: real where "x = of_int M / 2 ^ d"
  define j where "j = E - d"
  define L where "L = bit_length (nat M)"
  have x0: "0 < x" using assms(1) by (simp add: x_def)
  have powE: "(2::real) ^ E = 2 ^ j * 2 ^ d"
    using assms(2) by (simp add: j_def power_add [symmetric])
  have "\<bar>x\<bar> = x" using x0 by simp
  then have a: "\<bar>x\<bar> * 2 ^ E = of_int (M * 2 ^ j)"
    by (simp add: x_def powE)
  have fa: "\<lfloor>\<bar>x\<bar> * 2 ^ E\<rfloor> = M * 2 ^ j"
    by (simp only: a floor_of_int)
  have "nat (M * 2 ^ j) = nat M * 2 ^ j"
    using assms(1) by (simp add: nat_mult_distrib nat_power_eq)
  moreover have "bit_length (nat M * 2 ^ j) = L + j"
    unfolding L_def using assms(1) by (intro bit_length_shift) simp
  ultimately have len: "bit_length (nat \<lfloor>\<bar>x\<bar> * 2 ^ E\<rfloor>) = L + j"
    by (simp only: fa)
  define s where "s = L + j - p"
  define y where "y = \<bar>x\<bar> * 2 ^ E / 2 ^ s"
  define q' where
    "q' = (if y - of_int \<lfloor>y\<rfloor> > 1 / 2 \<or> (y - of_int \<lfloor>y\<rfloor> = 1 / 2 \<and> odd \<lfloor>y\<rfloor>)
           then \<lfloor>y\<rfloor> + 1 else \<lfloor>y\<rfloor>)"
  have "float_round p E x = sgn x * (of_int q' * 2 ^ s / 2 ^ E)"
    unfolding float_round_def Let_def len q'_def y_def s_def by (rule refl)
  moreover have "sgn x = 1" using x0 by simp
  ultimately have res: "float_round p E x = of_int q' * 2 ^ s / 2 ^ E" by simp
  show ?thesis
  proof (cases "p \<le> L")
    case True
    then have t: "t = L - p" and s: "s = t + j" by (simp_all add: t_def L_def s_def)
    have y: "y = of_int M / 2 ^ t"
      by (simp add: y_def a s power_add)
    have "(2::real) ^ t = of_int (2 ^ t)" by simp
    then have fl: "\<lfloor>y\<rfloor> = q"
      unfolding y q_def by (simp only: floor_divide_of_int_eq)
    have M: "M = q * 2 ^ t + r"
      unfolding q_def r_def by (rule div_mult_mod_eq [symmetric])
    have "y = (of_int q * 2 ^ t + of_int r) / 2 ^ t"
      unfolding y by (subst M) simp
    then have frac: "y - of_int q = of_int r / 2 ^ t"
      by (simp add: field_simps)
    have gt: "(y - of_int q > 1 / 2) = (2 * r > 2 ^ t)"
    proof -
      have "(of_int r / 2 ^ t > (1 / 2 :: real)) = (real_of_int (2 * r) > of_int (2 ^ t))"
        by (simp add: field_simps)
      also have "\<dots> = (2 * r > 2 ^ t)" by (simp only: of_int_less_iff)
      finally show ?thesis by (simp only: frac)
    qed
    have eq: "(y - of_int q = 1 / 2) = (2 * r = 2 ^ t)"
    proof -
      have "(of_int r / 2 ^ t = (1 / 2 :: real)) = (real_of_int (2 * r) = of_int (2 ^ t))"
        by (auto simp: field_simps)
      also have "\<dots> = (2 * r = 2 ^ t)" by (simp only: of_int_eq_iff)
      finally show ?thesis by (simp only: frac)
    qed
    have "q' = (if 2 * r > 2 ^ t \<or> (2 * r = 2 ^ t \<and> odd q) then q + 1 else q)"
      by (simp only: q'_def fl gt eq)
    moreover have "real_of_int q' * 2 ^ s / 2 ^ E = of_int q' * 2 ^ t / 2 ^ d"
      by (simp add: s powE power_add)
    ultimately show ?thesis using res by (simp add: x_def)
  next
    case False
    then have t: "t = 0" and s: "s \<le> j" by (simp_all add: t_def L_def s_def)
    have powj: "(2::real) ^ j = 2 ^ (j - s) * 2 ^ s"
      using s by (simp add: power_add [symmetric])
    have y: "y = of_int (M * 2 ^ (j - s))"
      by (simp add: y_def a powj)
    have fy: "\<lfloor>y\<rfloor> = M * 2 ^ (j - s)" by (simp only: y floor_of_int)
    have frac0: "y - of_int \<lfloor>y\<rfloor> = 0" unfolding fy unfolding y by simp
    have "q' = \<lfloor>y\<rfloor>" unfolding q'_def frac0 by simp
    then have "q' = M * 2 ^ (j - s)" by (simp only: fy)
    then have "real_of_int q' * 2 ^ s / 2 ^ E = of_int M / 2 ^ d"
      by (simp add: powE powj)
    then show ?thesis using res by (simp add: x_def t q_def r_def)
  qed
qed

lemma float64_round_dyadic:
  assumes "0 < M" "d \<le> 1074" "bit_length (nat M) = 53 + t"
  shows "float64_round (of_int M / 2 ^ d) =
     of_int (if 2 * (M mod 2 ^ t) > 2 ^ t \<or> (2 * (M mod 2 ^ t) = 2 ^ t \<and> odd (M div 2 ^ t))
             then M div 2 ^ t + 1 else M div 2 ^ t) * 2 ^ t / 2 ^ d"
  unfolding float64_round_def
  using float_round_dyadic [OF assms(1,2), of 53] assms(3) by simp

lemma float64_round_exact:
  assumes "0 < M" "d \<le> 1074" "M < 2 ^ 53"
  shows "float64_round (of_int M / 2 ^ d) = of_int M / 2 ^ d"
proof -
  have "nat M < 2 ^ 53" using assms(1,3) by (simp add: nat_less_iff)
  then have "bit_length (nat M) - 53 = 0" using bit_length_le [of "nat M" 53] by simp
  then show ?thesis
    unfolding float64_round_def
    using float_round_dyadic [OF assms(1,2), of 53] by simp
qed

lemma cpp_div_nonneg: "0 < d \<Longrightarrow> 0 \<le> a \<Longrightarrow> 0 \<le> cpp_div a d"
  by (simp add: cpp_div_def sgn_if pos_imp_zdiv_nonneg_iff)

lemma frames_count_value:
  assumes "0 < AnimationTimerDelta ext" "0 \<le> duration st"
    and "cpp_div (duration st) (AnimationTimerDelta ext) + 2 < 2 ^ 31"
  shows "frames_count ext st = cpp_div (duration st) (AnimationTimerDelta ext) + 2"
    and "2 \<le> frames_count ext st" and "frames_count ext st < 2 ^ 31"
proof -
  have d: "0 \<le> cpp_div (duration st) (AnimationTimerDelta ext)"
    using assms(1,2) by (rule cpp_div_nonneg)
  have "int32 (cpp_div (duration st) (AnimationTimerDelta ext))
      = cpp_div (duration st) (AnimationTimerDelta ext)"
    using d assms(3) by (intro int32_id) simp_all
  moreover have "int32 (cpp_div (duration st) (AnimationTimerDelta ext) + 2)
      = cpp_div (duration st) (AnimationTimerDelta ext) + 2"
    using d assms(3) by (intro int32_id) simp_all
  ultimately show v: "frames_count ext st = cpp_div (duration st) (AnimationTimerDelta ext) + 2"
    by (simp add: frames_count_def)
  show "2 \<le> frames_count ext st" using d by (simp add: v)
  show "frames_count ext st < 2 ^ 31" using assms(3) by (simp add: v)
qed

lemma frame_index_bounds:
  assumes "2 \<le> count" "count < 2 ^ 31" "0 \<le> toggled" "toggled \<le> 1"
  shows "0 \<le> frame_index toggled count" "frame_index toggled count < count"
proof -
  let ?x = "toggled * real_of_int (count - 1)"
  let ?r = "float64_round ?x"
  have c32: "int32 (count - 1) = count - 1"
    using assms(1,2) by (intro int32_id) simp_all
  have c: "0 \<le> real_of_int (count - 1)" using assms(1) by simp
  have x0: "0 \<le> ?x" using assms(3) c by (rule mult_nonneg_nonneg)
  have "?x \<le> 1 * real_of_int (count - 1)"
    using assms(4) c by (rule mult_right_mono)
  then have x1: "?x \<le> real_of_int (count - 1)" by simp
  have "count - 1 < 2 ^ 31" using assms(2) by simp
  from float64_round_bounds [OF x0 x1 this]
  have r0: "0 \<le> ?r" and r1: "?r \<le> real_of_int (count - 1)" .
  have idx: "frame_index toggled count = \<lfloor>?r + 1 / 2\<rfloor>"
    using r0 by (simp add: frame_index_def std_round_def c32)
  show "0 \<le> frame_index toggled count"
    using r0 by (simp add: idx le_floor_iff)
  have "?r + 1 / 2 < real_of_int count" using r1 by simp
  then show "frame_index toggled count < count"
    by (simp add: idx floor_less_iff)
qed

lemma FillFrame_returns:
  "1 < count \<Longrightarrow> 0 \<le> index \<Longrightarrow> index < count \<Longrightarrow> \<exists>painted. FillFrame st index count = Inr painted"
  by (simp add: FillFrame_def Let_def)

lemma framesForStyle_sized:
  assumes "frames_sized ext g" "0 \<le> frames_count ext st"
  shows "\<exists>frames g1. framesForStyle ext st g = Inr (frames, g1)
           \<and> int (length (ready frames)) = frames_count ext st
           \<and> frames_sized ext g1"
  using assms
  by (auto simp: framesForStyle_def frames_sized_def Let_def split: option.splits)

lemma frames_sized_update:
  "frames_sized ext g \<Longrightarrow> int (length (ready frames)) = frames_count ext st
     \<Longrightarrow> frames_sized ext (g\<lparr>gen_data := (gen_data g)(st \<mapsto> frames)\<rparr>)"
  by (simp add: frames_sized_def)

lemma paintFrame_returns:
  assumes "2 \<le> frames_count ext st" "frames_count ext st < 2 ^ 31"
    and "0 \<le> toggled" "toggled \<le> 1" and "frames_sized ext g"
  shows "\<exists>g'. paintFrame ext st toggled g =
            Inr ((int32 (frame_index toggled (frames_count ext st)
                          * int32 (diameter st * cIntRetinaFactor ext)),
                  int32 (diameter st * cIntRetinaFactor ext)), g')
           \<and> frames_sized ext g'"
proof -
  let ?count = "frames_count ext st"
  let ?index = "frame_index toggled ?count"
  have ib: "0 \<le> ?index" "?index < ?count"
    using frame_index_bounds [OF assms(1-4)] by simp_all
  obtain frames g1 where f: "framesForStyle ext st g = Inr (frames, g1)"
    "int (length (ready frames)) = ?count" "frames_sized ext g1"
    using framesForStyle_sized [OF assms(5), of st] assms(1) by auto
  have c32: "int32 (int (length (ready frames))) = ?count"
    unfolding f(2) using assms(1,2) by (intro int32_id) simp_all
  obtain painted where p: "FillFrame st ?index ?count = Inr painted"
    using FillFrame_returns [of ?count ?index st] assms(1) ib by auto
  show ?thesis
    using f p ib c32
    by (auto simp: paintFrame_def bindE_def Let_def intro!: frames_sized_update)
qed

lemma frames_sized_new: "frames_sized ext Generator_new" "frames_sized ext (invalidate g)"
  by (simp_all add: frames_sized_def Generator_new_def invalidate_def)

text \<open>
  The index is the one of floating point: at this \<open>toggled\<close> the exact product with 29
  lies below \<open>8.5\<close>, the \<open>float64\<close> product is \<open>8.5\<close>, and the index is 9.
\<close>

lemma frame_index_rounds_product:
  "frame_index (5280082321744719 / 18014398509481984) 30 = 9"
proof -
  have "int32 (30 - 1) = 29" by (simp add: int32_def)
  moreover have "(5280082321744719 / 18014398509481984 :: real) * real_of_int 29
      = of_int 153122387330596851 / 2 ^ 54"
    by simp
  moreover have "float64_round (of_int 153122387330596851 / 2 ^ 54) = 17 / 2"
  proof -
    have "bit_length (nat 153122387330596851) = 53 + 5"
      by (simp add: bit_length.simps)
    from float64_round_dyadic [OF _ _ this, of 54]
    show ?thesis by simp
  qed
  ultimately have "frame_index (5280082321744719 / 18014398509481984) 30 = std_round (17 / 2)"
    by (simp only: frame_index_def)
  also have "\<dots> = 9" by (simp add: std_round_def)
  finally show ?thesis .
qed

lemma frame_index_half: "frame_index (1 / 2) 30 = 15"
proof -
  have "int32 (30 - 1) = 29" by (simp add: int32_def)
  moreover have "(1 / 2 :: real) * real_of_int 29 = of_int 29 / 2 ^ 1" by simp
  moreover have "float64_round (of_int 29 / 2 ^ 1) = of_int 29 / 2 ^ 1"
    by (rule float64_round_exact) simp_all
  ultimately have "frame_index (1 / 2) 30 = std_round (of_int 29 / 2 ^ 1)"
    by (simp only: frame_index_def)
  also have "\<dots> = 15" by (simp add: std_round_def)
  finally show ?thesis .
qed

text \<open>
  C8. \<open>AnimationTimerDelta\<close> and the style of the check (\<open>st::backgroundCheck\<close>, the one
  style this file passes, lines 442-444) are constants declared outside this file. For
  a positive delta and a duration that is not negative, with a count of frames that
  fits an \<open>int\<close>, the count \<open>duration / AnimationTimerDelta + 2\<close> is at least 2, and for
  every \<open>toggled\<close> in \<open>[0, 1]\<close> the frame index, computed in \<open>float64\<close> and rounded as the
  source does, lies in \<open>[0, count)\<close>: \<open>FillFrame\<close> passes its two \<open>Expects\<close> at that index,
  and \<open>paintFrame\<close>, on a generator as its own calls leave it, passes its \<open>Assert\<close> and
  draws the frame at that index.
\<close>

theorem frame_index_in_range:
  assumes "0 < AnimationTimerDelta ext" "0 \<le> duration st"
    and "cpp_div (duration st) (AnimationTimerDelta ext) + 2 < 2 ^ 31"
    and "0 \<le> toggled" "toggled \<le> 1"
  shows "frames_count ext st = cpp_div (duration st) (AnimationTimerDelta ext) + 2
    \<and> 2 \<le> frames_count ext st
    \<and> 0 \<le> frame_index toggled (frames_count ext st)
    \<and> frame_index toggled (frames_count ext st) < frames_count ext st
    \<and> (\<exists>painted. FillFrame st (frame_index toggled (frames_count ext st)) (frames_count ext st)
          = Inr painted)
    \<and> frames_sized ext Generator_new
    \<and> frames_sized ext (invalidate g)
    \<and> (frames_sized ext g \<longrightarrow>
         (\<exists>g'. paintFrame ext st toggled g =
            Inr ((int32 (frame_index toggled (frames_count ext st)
                          * int32 (diameter st * cIntRetinaFactor ext)),
                  int32 (diameter st * cIntRetinaFactor ext)), g')
           \<and> frames_sized ext g'))"
proof -
  note c = frames_count_value [OF assms(1-3)]
  have ib: "0 \<le> frame_index toggled (frames_count ext st)"
    "frame_index toggled (frames_count ext st) < frames_count ext st"
    using frame_index_bounds [OF c(2,3) assms(4,5)] by simp_all
  have "\<exists>painted. FillFrame st (frame_index toggled (frames_count ext st)) (frames_count ext st)
      = Inr painted"
    using FillFrame_returns [of "frames_count ext st" _ st] c(2) ib by simp
  then show ?thesis
    using c(1,2) ib paintFrame_returns [OF c(2,3) assms(4,5)] frames_sized_new [of ext]
    by blast
qed

theorem frame_index_in_range_witness:
  "frames_count example_ext (st_backgroundCheck example_ext) = 30
   \<and> frame_index (1 / 2) (frames_count example_ext (st_backgroundCheck example_ext)) = 15
   \<and> (\<exists>g'. paintFrame example_ext (st_backgroundCheck example_ext) (1 / 2) Generator_new
          = Inr ((270, 18), g'))"
proof -
  have div: "cpp_div (duration (st_backgroundCheck example_ext)) (AnimationTimerDelta example_ext)
      = 28"
    by (simp add: cpp_div_def example_ext_def)
  have hyps: "0 < AnimationTimerDelta example_ext"
    "0 \<le> duration (st_backgroundCheck example_ext)"
    "cpp_div (duration (st_backgroundCheck example_ext)) (AnimationTimerDelta example_ext) + 2
       < 2 ^ 31"
    unfolding div by (simp_all add: example_ext_def)
  have t: "(0::real) \<le> 1 / 2" "(1 / 2 :: real) \<le> 1" by simp_all
  note main = frame_index_in_range [OF hyps t, of Generator_new]
  have count: "frames_count example_ext (st_backgroundCheck example_ext) = 30"
    using main by (simp add: div)
  have part: "int32 (diameter (st_backgroundCheck example_ext) * cIntRetinaFactor example_ext)
      = 18"
    by (simp add: example_ext_def int32_def)
  have "int32 (15 * 18) = 270" by (simp add: int32_def)
  then show ?thesis
    using main by (auto simp: count frame_index_half part)
qed

subsection \<open>C9: which slugs Start refuses\<close>

lemma slug_char_rejected_iff: "slug_char_rejected ch \<longleftrightarrow> \<not> slug_char_allowed ch"
  unfolding slug_char_rejected_def slug_char_allowed_def
  by (auto simp: not_le not_less)

lemma IsValidWallPaperSlug_iff: "IsValidWallPaperSlug slug \<longleftrightarrow> \<not> slug_rejected slug"
  unfolding IsValidWallPaperSlug_def slug_rejected_def kMaxWallPaperSlugLength_def
  by (auto simp: find_None_iff slug_char_rejected_iff list_ex_iff)

text \<open>
  C9. \<open>Start\<close> shows the bad-link box and returns false exactly when the slug is no colour
  slug and is rejected in the words of the claim: empty, longer than 255 code units, or
  with a character that is no ASCII letter, digit, dot, underscore or hyphen. For every
  other slug it returns true and shows no bad-link box before it returns.
\<close>

theorem Start_rejects_bad_slug:
  "(if FromColorSlug ext slug = None \<and> slug_rejected slug
    then Start ext slug params = (False, [ShowInformBox lng_background_bad_link])
    else fst (Start ext slug params)
       \<and> ShowInformBox lng_background_bad_link \<notin> set (snd (Start ext slug params)))"
  by (auto simp: Start_def IsValidWallPaperSlug_iff split: option.splits)

theorem Start_rejects_bad_slug_witness:
  "Start example_ext (fromLatin1 ''a b'') [] = (False, [ShowInformBox lng_background_bad_link])
   \<and> fst (Start example_ext (fromLatin1 ''a-b_c.d'') [])"
  using Start_rejects_bad_slug [of example_ext "fromLatin1 ''a b''" "[]"]
    Start_rejects_bad_slug [of example_ext "fromLatin1 ''a-b_c.d''" "[]"]
  by (simp add: example_ext_def slug_rejected_def slug_char_allowed_def fromLatin1_def latin1_def)

subsection \<open>C10: ColorizePattern reads the alpha channel only\<close>

lemma read_byte_alpha: "read_byte buf (4 * i + 3) = alpha_byte (buf ! i)"
proof -
  have "(4 * i + 3) mod 4 = 3" "(4 * i + 3) div 4 = i" by presburger+
  then show ?thesis by (simp add: read_byte_def alpha_byte_def)
qed

lemma colorize_row_result:
  "colorize_row ext pattern 4 1 n (4 * rp + 3) rp buf = (mp', rp', buf') \<Longrightarrow>
     mp' = 4 * (rp + n) + 3 \<and> rp' = rp + n \<and> length buf' = length buf
     \<and> (\<forall>i < length buf. buf' ! i =
           (if rp \<le> i \<and> i < rp + n then colorize_pixel ext pattern (alpha_byte (buf ! i))
            else buf ! i))"
proof (induction n arbitrary: rp buf)
  case 0
  then show ?case by auto
next
  case (Suc n)
  let ?buf1 = "buf[rp := colorize_pixel ext pattern (read_byte buf (4 * rp + 3))]"
  have "colorize_row ext pattern 4 1 n (4 * Suc rp + 3) (Suc rp) ?buf1 = (mp', rp', buf')"
    using Suc.prems by (simp add: algebra_simps)
  from Suc.IH [OF this]
  have ih: "mp' = 4 * (Suc rp + n) + 3" "rp' = Suc rp + n" "length buf' = length ?buf1"
    "\<forall>i < length ?buf1. buf' ! i =
       (if Suc rp \<le> i \<and> i < Suc rp + n
        then colorize_pixel ext pattern (alpha_byte (?buf1 ! i)) else ?buf1 ! i)"
    by simp_all
  have "buf' ! i =
      (if rp \<le> i \<and> i < rp + Suc n then colorize_pixel ext pattern (alpha_byte (buf ! i))
       else buf ! i)" if "i < length buf" for i
  proof (cases "i = rp")
    case True
    then show ?thesis using ih(4) that by (simp add: read_byte_alpha)
  next
    case False
    then show ?thesis using ih(4) that by auto
  qed
  then show ?case using ih(1-3) by simp
qed

lemma in_rows_lower: "in_rows p stride w n i \<Longrightarrow> p \<le> i"
proof (induction n arbitrary: p)
  case 0
  then show ?case by simp
next
  case (Suc n)
  from Suc.prems consider "p \<le> i" | "in_rows (p + stride) stride w n i" by auto
  then show ?case
  proof cases
    case 1
    then show ?thesis .
  next
    case 2
    then have "p + stride \<le> i" by (rule Suc.IH)
    then show ?thesis by simp
  qed
qed

lemma colorize_rows_result:
  assumes "colorize_rows ext pattern 4 1 w (4 * ra) ra n (4 * rp + 3) rp buf = buf'"
  shows "length buf' = length buf
     \<and> (\<forall>i < length buf. buf' ! i =
           (if in_rows rp (w + ra) w n i then colorize_pixel ext pattern (alpha_byte (buf ! i))
            else buf ! i))"
  using assms
proof (induction n arbitrary: rp buf)
  case 0
  then show ?case by simp
next
  case (Suc n)
  obtain mp1 rp1 buf1 where row: "colorize_row ext pattern 4 1 w (4 * rp + 3) rp buf = (mp1, rp1, buf1)"
    by (cases "colorize_row ext pattern 4 1 w (4 * rp + 3) rp buf") auto
  from colorize_row_result [OF row]
  have r: "mp1 = 4 * (rp + w) + 3" "rp1 = rp + w" "length buf1 = length buf"
    "\<forall>i < length buf. buf1 ! i =
       (if rp \<le> i \<and> i < rp + w then colorize_pixel ext pattern (alpha_byte (buf ! i))
        else buf ! i)"
    by simp_all
  have "colorize_rows ext pattern 4 1 w (4 * ra) ra n (4 * (rp + (w + ra)) + 3) (rp + (w + ra)) buf1
      = buf'"
    using Suc.prems row r(1,2) by (simp add: algebra_simps)
  from Suc.IH [OF this]
  have ih: "length buf' = length buf1"
    "\<forall>i < length buf1. buf' ! i =
       (if in_rows (rp + (w + ra)) (w + ra) w n i
        then colorize_pixel ext pattern (alpha_byte (buf1 ! i)) else buf1 ! i)"
    by simp_all
  have "buf' ! i =
      (if in_rows rp (w + ra) w (Suc n) i then colorize_pixel ext pattern (alpha_byte (buf ! i))
       else buf ! i)" if "i < length buf" for i
  proof (cases "in_rows (rp + (w + ra)) (w + ra) w n i")
    case True
    then have "rp + (w + ra) \<le> i" by (rule in_rows_lower)
    then have "\<not> (rp \<le> i \<and> i < rp + w)" by simp
    then show ?thesis using ih(2) r(3,4) that True by auto
  next
    case False
    then show ?thesis using ih(2) r(3,4) that by simp
  qed
  then show ?case using ih(1) r(3) by simp
qed

lemma in_rows_pixel: "y < n \<Longrightarrow> x < w \<Longrightarrow> in_rows p stride w n (p + y * stride + x)"
proof (induction n arbitrary: p y)
  case 0
  then show ?case by simp
next
  case (Suc n)
  show ?case
  proof (cases y)
    case 0
    then show ?thesis using Suc.prems by simp
  next
    case (Suc y')
    then have "in_rows (p + stride) stride w n (p + stride + y' * stride + x)"
      using Suc.IH [of y' "p + stride"] Suc.prems by simp
    then show ?thesis using Suc by (simp add: algebra_simps)
  qed
qed

lemma ColorizePattern_Inr:
  assumes "ColorizePattern ext img color = Inr r"
  defines "a \<equiv> premultiplied ext img"
  defines "perLine \<equiv> bytesPerLine a div 4"
  shows "depth a = 32" "bytesPerLine a = 4 * perLine" "width a \<le> perLine"
    "r = a\<lparr>bits := colorize_rows ext (anim_shifted ext color) 4 1 (width a)
                     (4 * (perLine - width a)) (perLine - width a) (height a) (4 * 0 + 3) 0
                     (bits a)\<rparr>"
proof -
  have asserts: "int (bytesPerLine a) div 4 - int (width a) \<ge> 0" "int (depth a) = 32"
    "int (bytesPerLine a) = 4 * (int (bytesPerLine a) div 4)"
    using assms(1)
    by (simp_all add: ColorizePattern_def Let_def a_def drop_bit_eq_div push_bit_eq_mult
        split: if_splits)
  show d: "depth a = 32" using asserts(2) by simp
  show bpl: "bytesPerLine a = 4 * perLine"
    using asserts(3) unfolding perLine_def by presburger
  show w: "width a \<le> perLine"
    using asserts(1) unfolding perLine_def by (simp add: zdiv_int)
  have n1: "nat (int (bytesPerLine a) div 4 - int (width a)) = perLine - width a"
    unfolding perLine_def by (simp add: zdiv_int nat_diff_distrib')
  have n2: "nat (int (bytesPerLine a) - int (width a) * 4) = 4 * (perLine - width a)"
    using bpl w by (simp add: nat_diff_distrib' algebra_simps)
  show "r = a\<lparr>bits := colorize_rows ext (anim_shifted ext color) 4 1 (width a)
                     (4 * (perLine - width a)) (perLine - width a) (height a) (4 * 0 + 3) 0
                     (bits a)\<rparr>"
    using assms(1) d n1 n2
    by (simp add: ColorizePattern_def Let_def a_def [symmetric] drop_bit_eq_div push_bit_eq_mult
        split: if_splits)
qed

lemma ColorizePattern_returns:
  assumes "depth (premultiplied ext img) = 32"
    and "bytesPerLine (premultiplied ext img) mod 4 = 0"
    and "4 * width (premultiplied ext img) \<le> bytesPerLine (premultiplied ext img)"
  shows "\<exists>r. ColorizePattern ext img color = Inr r"
proof -
  let ?a = "premultiplied ext img"
  have 1: "int (bytesPerLine ?a) = 4 * (int (bytesPerLine ?a) div 4)"
    using assms(2) by presburger
  have 2: "int (width ?a) \<le> int (bytesPerLine ?a) div 4"
    using assms(3) by presburger
  have 3: "int (width ?a) * 4 \<le> int (bytesPerLine ?a)"
    using assms(3) by presburger
  show ?thesis
    using assms(1) 1 2 3
    by (simp add: ColorizePattern_def Let_def drop_bit_eq_div push_bit_eq_mult)
qed

lemma ColorizePattern_pixel:
  assumes "ColorizePattern ext img color = Inr r"
    and "buffer_holds_lines (premultiplied ext img)"
    and "y < height (premultiplied ext img)" "x < width (premultiplied ext img)"
  shows "pixel r x y =
     colorize_pixel ext (anim_shifted ext color) (alpha_byte (pixel (premultiplied ext img) x y))"
    and "width r = width (premultiplied ext img)"
    and "height r = height (premultiplied ext img)"
    and "bytesPerLine r = bytesPerLine (premultiplied ext img)"
proof -
  let ?a = "premultiplied ext img"
  let ?perLine = "bytesPerLine ?a div 4"
  let ?i = "y * ?perLine + x"
  note res = ColorizePattern_Inr [OF assms(1)]
  show "width r = width ?a" "height r = height ?a" "bytesPerLine r = bytesPerLine ?a"
    by (simp_all add: res(4))
  have stride: "width ?a + (?perLine - width ?a) = ?perLine" using res(3) by simp
  have "Suc y * ?perLine \<le> height ?a * ?perLine"
    using assms(3) by (intro mult_le_mono1) simp
  moreover have "?i < Suc y * ?perLine" using assms(4) res(3) by simp
  ultimately have len: "?i < length (bits ?a)"
    using assms(2) by (simp add: buffer_holds_lines_def)
  have rows: "in_rows 0 ?perLine (width ?a) (height ?a) (0 + y * ?perLine + x)"
    using assms(3,4) by (rule in_rows_pixel)
  have "bits r ! ?i = colorize_pixel ext (anim_shifted ext color) (alpha_byte (bits ?a ! ?i))"
    using colorize_rows_result [of ext "anim_shifted ext color" "width ?a"
        "?perLine - width ?a" "height ?a" 0 "bits ?a" "bits r"] len rows
    by (simp add: res(4) stride)
  then show "pixel r x y =
     colorize_pixel ext (anim_shifted ext color) (alpha_byte (pixel ?a x y))"
    by (simp add: pixel_def res(4))
qed

lemma premultiplied_same:
  "format img = Format_ARGB32_Premultiplied \<Longrightarrow> premultiplied ext img = img"
  by (simp add: premultiplied_def)

text \<open>
  C10. Take two images as the loops of \<open>ColorizePattern\<close> see them (an image that is not
  premultiplied ARGB32 is converted first by \<open>convertToFormat\<close>, a function of the
  toolkit; an image in that format is taken as it is), of equal width and height, whose
  pixels have the same alpha byte. Coloured with the same colour they give images of
  that width and height with the same pixel at every place, and every pixel of the
  result is computed from the colour and the alpha byte of the pixel at its place
  alone. The function returns whenever the image has 32 bits per pixel and lines of
  whole pixels that hold its width.
\<close>

theorem ColorizePattern_alpha_only:
  assumes "width (premultiplied ext img1) = width (premultiplied ext img2)"
    and "height (premultiplied ext img1) = height (premultiplied ext img2)"
    and "buffer_holds_lines (premultiplied ext img1)"
    and "buffer_holds_lines (premultiplied ext img2)"
    and "\<forall>y < height (premultiplied ext img1). \<forall>x < width (premultiplied ext img1).
           alpha_byte (pixel (premultiplied ext img1) x y)
           = alpha_byte (pixel (premultiplied ext img2) x y)"
  shows "(format img1 = Format_ARGB32_Premultiplied \<longrightarrow> premultiplied ext img1 = img1)
    \<and> (depth (premultiplied ext img1) = 32
        \<and> bytesPerLine (premultiplied ext img1) mod 4 = 0
        \<and> 4 * width (premultiplied ext img1) \<le> bytesPerLine (premultiplied ext img1)
        \<longrightarrow> (\<exists>r1. ColorizePattern ext img1 color = Inr r1))
    \<and> (ColorizePattern ext img1 color = Inr r1 \<and> ColorizePattern ext img2 color = Inr r2
        \<longrightarrow> width r1 = width r2 \<and> height r1 = height r2
          \<and> (\<forall>y < height r1. \<forall>x < width r1.
                pixel r1 x y = pixel r2 x y
                \<and> pixel r1 x y =
                    colorize_pixel ext (anim_shifted ext color)
                      (alpha_byte (pixel (premultiplied ext img1) x y))))"
proof (intro conjI impI)
  show "premultiplied ext img1 = img1" if "format img1 = Format_ARGB32_Premultiplied"
    using that by (rule premultiplied_same)
  show "\<exists>r1. ColorizePattern ext img1 color = Inr r1"
    if "depth (premultiplied ext img1) = 32
        \<and> bytesPerLine (premultiplied ext img1) mod 4 = 0
        \<and> 4 * width (premultiplied ext img1) \<le> bytesPerLine (premultiplied ext img1)"
    using that ColorizePattern_returns [of ext img1 color] by simp
next
  assume "ColorizePattern ext img1 color = Inr r1 \<and> ColorizePattern ext img2 color = Inr r2"
  then have res: "ColorizePattern ext img1 color = Inr r1"
    "ColorizePattern ext img2 color = Inr r2"
    by simp_all
  have dims: "width r1 = width (premultiplied ext img1)"
    "height r1 = height (premultiplied ext img1)"
    "width r2 = width (premultiplied ext img2)"
    "height r2 = height (premultiplied ext img2)"
    using ColorizePattern_Inr(4) [OF res(1)] ColorizePattern_Inr(4) [OF res(2)]
    by simp_all
  show "width r1 = width r2" "height r1 = height r2"
    using dims assms(1,2) by simp_all
  show "\<forall>y < height r1. \<forall>x < width r1.
          pixel r1 x y = pixel r2 x y
          \<and> pixel r1 x y =
              colorize_pixel ext (anim_shifted ext color)
                (alpha_byte (pixel (premultiplied ext img1) x y))"
  proof (intro allI impI)
    fix y x
    assume "y < height r1" "x < width r1"
    then have y1: "y < height (premultiplied ext img1)"
      and x1: "x < width (premultiplied ext img1)"
      using dims by simp_all
    have y2: "y < height (premultiplied ext img2)" and x2: "x < width (premultiplied ext img2)"
      using y1 x1 assms(1,2) by simp_all
    show "pixel r1 x y = pixel r2 x y
          \<and> pixel r1 x y =
              colorize_pixel ext (anim_shifted ext color)
                (alpha_byte (pixel (premultiplied ext img1) x y))"
      using ColorizePattern_pixel(1) [OF res(1) assms(3) y1 x1]
        ColorizePattern_pixel(1) [OF res(2) assms(4) y2 x2] assms(5) y1 x1
      by simp
  qed
qed

theorem ColorizePattern_alpha_only_witness:
  "ColorizePattern example_ext example_image example_color = Inr example_colorized
   \<and> ColorizePattern example_ext example_image_rgb example_color = Inr example_colorized
   \<and> bits example_image \<noteq> bits example_image_rgb
   \<and> pixel example_colorized 1 0 = 387"
proof -
  have pre: "premultiplied example_ext example_image = example_image"
    "premultiplied example_ext example_image_rgb = example_image_rgb"
    by (simp_all add: premultiplied_def example_image_def example_image_rgb_def)
  have dims: "width (premultiplied example_ext example_image)
      = width (premultiplied example_ext example_image_rgb)"
    "height (premultiplied example_ext example_image)
      = height (premultiplied example_ext example_image_rgb)"
    unfolding pre by (simp_all add: example_image_rgb_def)
  have holds: "buffer_holds_lines (premultiplied example_ext example_image)"
    "buffer_holds_lines (premultiplied example_ext example_image_rgb)"
    unfolding pre
    by (simp_all add: buffer_holds_lines_def example_image_def example_image_rgb_def)
  have agree: "\<forall>y < height (premultiplied example_ext example_image).
      \<forall>x < width (premultiplied example_ext example_image).
        alpha_byte (pixel (premultiplied example_ext example_image) x y)
        = alpha_byte (pixel (premultiplied example_ext example_image_rgb) x y)"
    unfolding pre
    by (auto simp: example_image_def example_image_rgb_def pixel_def alpha_byte_def
        less_2_cases_iff)
  have r1: "ColorizePattern example_ext example_image example_color = Inr example_colorized"
    by code_simp
  have r2: "ColorizePattern example_ext example_image_rgb example_color = Inr example_colorized"
    by code_simp
  have size: "0 < height example_colorized" "1 < width example_colorized"
    by (simp_all add: example_colorized_def)
  have "\<forall>y < height example_colorized. \<forall>x < width example_colorized.
      pixel example_colorized x y =
        colorize_pixel example_ext (anim_shifted example_ext example_color)
          (alpha_byte (pixel (premultiplied example_ext example_image) x y))"
    using ColorizePattern_alpha_only [OF dims holds agree, of example_color example_colorized
        example_colorized] r1 r2
    by blast
  with size have "pixel example_colorized 1 0 =
      colorize_pixel example_ext (anim_shifted example_ext example_color)
        (alpha_byte (pixel example_image 1 0))"
    unfolding pre by blast
  also have "\<dots> = 387" by code_simp
  finally have "pixel example_colorized 1 0 = 387" .
  moreover have "bits example_image \<noteq> bits example_image_rgb"
    by (simp add: example_image_def example_image_rgb_def)
  ultimately show ?thesis using r1 r2 by simp
qed

end
